theory Spec2Isabelle
  imports Complex_Main "HOL-Library.Log_Nat" "HOL-Library.Word"
begin

section \<open>Conventions\<close>

text \<open>
  The JavaScript sources are embedded as pure functions.  An object is a record whose
  optional properties are \<open>option\<close> fields (\<open>None\<close> is an absent, \<open>undefined\<close> or
  \<open>null\<close> property).  An \<open>async\<close> function that may reject returns \<open>string + 'a\<close>:
  \<open>Inl msg\<close> is a thrown \<open>Error\<close> with that message, \<open>Inr v\<close> a returned value.
  \<open>Date.now()\<close>, \<open>Math.random()\<close> and the external collaborators (ledger, job
  registry, hasher, wallet) are parameters.  Timestamps, block numbers and loads are
  integers (on which the comparisons of JavaScript numbers are exact below
  \<open>2 ^ 53\<close>); the amounts and shares of \<open>splitPayment\<close>, on which the source does
  arithmetic, are double-precision numbers.
\<close>

subsection \<open>Truthiness\<close>

text \<open>A number is falsy when it is absent or \<open>0\<close>, a string when absent or empty.\<close>

definition truthy_num :: "int option \<Rightarrow> bool" where
  "truthy_num v = (case v of None \<Rightarrow> False | Some n \<Rightarrow> n \<noteq> 0)"

definition truthy_str :: "string option \<Rightarrow> bool" where
  "truthy_str v = (case v of None \<Rightarrow> False | Some s \<Rightarrow> s \<noteq> [])"

section \<open>PaymentVerifier (src/utils/PaymentVerifier.js)\<close>

record metadata =
  md_jobId :: "string option"

record ledger_receipt =
  lr_txHash :: string
  lr_amount :: string
  lr_asset :: string
  lr_from :: string
  lr_to :: string
  lr_status :: string
  lr_blockNumber :: int
  lr_service :: "string option"
  lr_metadata :: "metadata option"
  lr_jobId :: "string option"
  lr_expiresAt :: "int option"

text \<open>The object returned by \<open>verify\<close>; each branch sets the properties it mentions.\<close>

record verification =
  valid :: bool
  reason :: "string option"
  txHash :: "string option"
  expected :: "string option"
  received :: "string option"
  status :: "string option"
  expiresAt :: "int option"
  amount :: "string option"
  asset :: "string option"
  v_from :: "string option"
  v_to :: "string option"
  blockNumber :: "int option"
  service :: "string option"
  v_metadata :: "metadata option"
  jobId :: "string option"

definition invalid_obj :: "string \<Rightarrow> verification" where
  "invalid_obj why =
     \<lparr>valid = False, reason = Some why, txHash = None, expected = None, received = None,
      status = None, expiresAt = None, amount = None, asset = None, v_from = None,
      v_to = None, blockNumber = None, service = None, v_metadata = None, jobId = None\<rparr>"

text \<open>The placeholder ledger lookup of the source.\<close>

definition fetchTransactionReceipt :: "string \<Rightarrow> string + ledger_receipt option" where
  "fetchTransactionReceipt h =
     Inr (Some \<lparr>lr_txHash = h, lr_amount = ''0.5'', lr_asset = ''USDC'', lr_from = ''0x...'',
                lr_to = ''0x...'', lr_status = ''confirmed'', lr_blockNumber = 12345678,
                lr_service = Some ''datafeed'', lr_metadata = Some \<lparr>md_jobId = None\<rparr>,
                lr_jobId = None, lr_expiresAt = None\<rparr>)"

text \<open>The test \<open>receipt.expiresAt && Date.now() > receipt.expiresAt\<close>.\<close>

definition expired :: "int \<Rightarrow> int option \<Rightarrow> bool" where
  "expired now e = (case e of None \<Rightarrow> False | Some t \<Rightarrow> truthy_num (Some t) \<and> now > t)"

text \<open>The body of the \<open>try\<close> block of \<open>verify\<close>: only the ledger lookup can throw.\<close>

definition verify_try ::
  "(string \<Rightarrow> string + ledger_receipt option) \<Rightarrow> int \<Rightarrow> string \<Rightarrow> string \<Rightarrow> string
     \<Rightarrow> string + verification" where
  "verify_try fetch now h expectedAmount expectedAsset =
     (case fetch h of
        Inl err \<Rightarrow> Inl err
      | Inr None \<Rightarrow> Inr ((invalid_obj ''Transaction not found'')\<lparr>txHash := Some h\<rparr>)
      | Inr (Some receipt) \<Rightarrow>
          if lr_amount receipt \<noteq> expectedAmount then
            Inr ((invalid_obj ''Amount mismatch'')
                   \<lparr>expected := Some expectedAmount, received := Some (lr_amount receipt)\<rparr>)
          else if lr_asset receipt \<noteq> expectedAsset then
            Inr ((invalid_obj ''Asset mismatch'')
                   \<lparr>expected := Some expectedAsset, received := Some (lr_asset receipt)\<rparr>)
          else if lr_status receipt \<noteq> ''confirmed'' then
            Inr ((invalid_obj ''Transaction not confirmed'')
                   \<lparr>status := Some (lr_status receipt)\<rparr>)
          else if expired now (lr_expiresAt receipt) then
            Inr ((invalid_obj ''Payment expired'')\<lparr>expiresAt := lr_expiresAt receipt\<rparr>)
          else
            Inr \<lparr>valid = True, reason = None, txHash = Some h, expected = None,
                 received = None, status = None, expiresAt = None,
                 amount = Some (lr_amount receipt), asset = Some (lr_asset receipt),
                 v_from = Some (lr_from receipt), v_to = Some (lr_to receipt),
                 blockNumber = Some (lr_blockNumber receipt),
                 service = lr_service receipt, v_metadata = lr_metadata receipt,
                 jobId = lr_jobId receipt\<rparr>)"

text \<open>\<open>verify\<close>: the \<open>catch\<close> clause turns every thrown error into a returned object.\<close>

definition verify ::
  "(string \<Rightarrow> string + ledger_receipt option) \<Rightarrow> int \<Rightarrow> string \<Rightarrow> string \<Rightarrow> string
     \<Rightarrow> string + verification" where
  "verify fetch now h expectedAmount expectedAsset =
     (case verify_try fetch now h expectedAmount expectedAsset of
        Inl msg \<Rightarrow> Inr ((invalid_obj msg)\<lparr>txHash := Some h\<rparr>)
      | Inr v \<Rightarrow> Inr v)"

section \<open>PaymentProcessor (src/services/PaymentProcessor.js)\<close>

record jobConfig =
  jc_amount :: string
  jc_asset :: "string option"

text \<open>
  What \<open>Promise.race([job.run(), timer])\<close> settles to: the job's result, the job's
  rejection, or the 300 s timer firing first.
\<close>

datatype 'r run_outcome = Run_Resolved 'r | Run_Rejected string | Run_Timeout

record 'r audit_entry =
  ae_jobId :: "string option"
  ae_txHash :: string
  ae_status :: string
  ae_timestamp :: "int option"
  ae_result :: "'r option"
  ae_error :: "string option"

text \<open>The externally visible steps of one processing attempt, in the order they happen.\<close>

datatype 'r event =
    Ev_Verify string
  | Ev_GetJob string
  | Ev_SetContext string
  | Ev_Run string
  | Ev_Audit "'r audit_entry"

record 'r process_result =
  pr_success :: bool
  pr_jobId :: "string option"
  pr_result :: "'r option"
  pr_error :: "string option"

text \<open>The placeholder job registry of the source: it always throws.\<close>

definition getJob :: "string \<Rightarrow> string + 'r run_outcome option" where
  "getJob j = Inl ''getJob not implemented''"

definition executeJob ::
  "(string \<Rightarrow> string + 'r run_outcome option) \<Rightarrow> string \<Rightarrow> (string + 'r) \<times> 'r event list" where
  "executeJob registry j =
     (case registry j of
        Inl err \<Rightarrow> (Inl err, [Ev_GetJob j])
      | Inr None \<Rightarrow> (Inl (''Job '' @ j @ '' not found''), [Ev_GetJob j])
      | Inr (Some job) \<Rightarrow>
          (case job of
             Run_Resolved r \<Rightarrow> Inr r
           | Run_Rejected err \<Rightarrow> Inl err
           | Run_Timeout \<Rightarrow> Inl ''Job timeout'',
           [Ev_GetJob j, Ev_SetContext j, Ev_Run j]))"

text \<open>\<open>a || b\<close> on optional strings.\<close>

definition or_str :: "string option \<Rightarrow> string option \<Rightarrow> string option" where
  "or_str a b = (if truthy_str a then a else b)"

text \<open>\<open>a || d\<close> with a string default, as in \<open>jobConfig.asset || 'USDC'\<close>.\<close>

definition or_default :: "string option \<Rightarrow> string \<Rightarrow> string" where
  "or_default a d = (case a of None \<Rightarrow> d | Some s \<Rightarrow> if truthy_str (Some s) then s else d)"

text \<open>\<open>receipt.metadata?.jobId || receipt.jobId\<close>\<close>

definition receipt_jobId :: "verification \<Rightarrow> string option" where
  "receipt_jobId receipt =
     or_str (case v_metadata receipt of None \<Rightarrow> None | Some m \<Rightarrow> md_jobId m) (jobId receipt)"

text \<open>
  The \<open>try\<close> block of \<open>processPaymentRequest\<close>.  The verifier is the injected
  \<open>this.verifier.verify\<close>, applied to the hash, the expected amount and asset.
\<close>

definition process_try ::
  "(string \<Rightarrow> string \<Rightarrow> string \<Rightarrow> string + verification)
     \<Rightarrow> (string \<Rightarrow> string + 'r run_outcome option) \<Rightarrow> int \<Rightarrow> string \<Rightarrow> jobConfig
     \<Rightarrow> (string + 'r process_result) \<times> 'r event list" where
  "process_try verifier registry now h cfg =
     (case verifier h (jc_amount cfg) (or_default (jc_asset cfg) ''USDC'') of
        Inl err \<Rightarrow> (Inl err, [Ev_Verify h])
      | Inr receipt \<Rightarrow>
          if \<not> valid receipt then
            (Inr \<lparr>pr_success = False, pr_jobId = None, pr_result = None,
                  pr_error = reason receipt\<rparr>, [Ev_Verify h])
          else
            (case receipt_jobId receipt of
               None \<Rightarrow> (Inl ''No job ID found in payment metadata'', [Ev_Verify h])
             | Some j \<Rightarrow>
                 if j = [] then (Inl ''No job ID found in payment metadata'', [Ev_Verify h])
                 else
                   (case executeJob registry j of
                      (Inl err, evs) \<Rightarrow> (Inl err, Ev_Verify h # evs)
                    | (Inr result, evs) \<Rightarrow>
                        (Inr \<lparr>pr_success = True, pr_jobId = Some j, pr_result = Some result,
                              pr_error = None\<rparr>,
                         Ev_Verify h # evs @
                         [Ev_Audit \<lparr>ae_jobId = Some j, ae_txHash = h,
                                    ae_status = ''completed'', ae_timestamp = Some now,
                                    ae_result = Some result, ae_error = None\<rparr>]))))"

text \<open>The whole method: the \<open>catch\<close> clause audits the failure and rethrows.\<close>

definition processPaymentRequest ::
  "(string \<Rightarrow> string \<Rightarrow> string \<Rightarrow> string + verification)
     \<Rightarrow> (string \<Rightarrow> string + 'r run_outcome option) \<Rightarrow> int \<Rightarrow> string \<Rightarrow> jobConfig
     \<Rightarrow> (string + 'r process_result) \<times> 'r event list" where
  "processPaymentRequest verifier registry now h cfg =
     (case process_try verifier registry now h cfg of
        (Inl err, evs) \<Rightarrow>
          (Inl err,
           evs @ [Ev_Audit \<lparr>ae_jobId = None, ae_txHash = h, ae_status = ''failed'',
                            ae_timestamp = None, ae_result = None, ae_error = Some err\<rparr>])
      | (Inr res, evs) \<Rightarrow> (Inr res, evs))"

text \<open>The audit entries among the steps of an attempt.\<close>

fun audits :: "'r event list \<Rightarrow> 'r audit_entry list" where
  "audits [] = []"
| "audits (Ev_Audit e # evs) = e # audits evs"
| "audits (_ # evs) = audits evs"

section \<open>JavaScript numbers\<close>

text \<open>
  A number is a double: a finite value, written as the rational it denotes, one of the
  two infinities, or \<open>NaN\<close>.  The two zeros are not told apart; none of the operations
  below distinguishes them.
\<close>

datatype jsnum = Num rat | PosInfinity | NegInfinity | NaN

definition pow2 :: "int \<Rightarrow> rat" where
  "pow2 q = (if 0 \<le> q then 2 ^ nat q else 1 / 2 ^ nat (- q))"

text \<open>Rounding to the nearest integer, to the even one on a tie.\<close>

definition round_half_even :: "rat \<Rightarrow> int" where
  "round_half_even r =
     (let f = \<lfloor>r\<rfloor>; d = r - of_int f
      in if d < 1 / 2 then f else if 1 / 2 < d then f + 1 else if even f then f else f + 1)"

text \<open>The exponent \<open>e\<close> with \<open>2 ^ e \<le> a < 2 ^ (e + 1)\<close>, for \<open>a > 0\<close>.\<close>

definition binade :: "rat \<Rightarrow> int" where
  "binade a = (if 1 \<le> a then bitlen \<lfloor>a\<rfloor> - 1 else - bitlen (\<lceil>1 / a\<rceil> - 1))"

text \<open>
  The double nearest to a rational (IEEE 754 binary64, round to nearest, ties to even):
  53 significant bits, the spacing of the subnormal numbers below \<open>2 ^ -1022\<close>, and
  an infinity from \<open>2 ^ 1024\<close> on.
\<close>

definition to_double :: "rat \<Rightarrow> jsnum" where
  "to_double x =
     (if x = 0 then Num 0
      else
        (let a = \<bar>x\<bar>;
             q = max (binade a) (- 1022) - 52;
             y = of_int (round_half_even (a / pow2 q)) * pow2 q
         in if 2 ^ 1024 \<le> y then (if x < 0 then NegInfinity else PosInfinity)
            else Num (if x < 0 then - y else y)))"

text \<open>The operators \<open>+\<close> and \<open>*\<close> on numbers, and \<open>x / 100\<close>.\<close>

fun js_add :: "jsnum \<Rightarrow> jsnum \<Rightarrow> jsnum" where
  "js_add (Num a) (Num b) = to_double (a + b)"
| "js_add NaN y = NaN"
| "js_add x NaN = NaN"
| "js_add PosInfinity NegInfinity = NaN"
| "js_add NegInfinity PosInfinity = NaN"
| "js_add PosInfinity y = PosInfinity"
| "js_add x PosInfinity = PosInfinity"
| "js_add NegInfinity y = NegInfinity"
| "js_add x NegInfinity = NegInfinity"

definition signed_infinity :: "bool \<Rightarrow> jsnum" where
  "signed_infinity negative = (if negative then NegInfinity else PosInfinity)"

fun js_mul :: "jsnum \<Rightarrow> jsnum \<Rightarrow> jsnum" where
  "js_mul (Num a) (Num b) = to_double (a * b)"
| "js_mul NaN y = NaN"
| "js_mul x NaN = NaN"
| "js_mul PosInfinity (Num b) = (if b = 0 then NaN else signed_infinity (b < 0))"
| "js_mul NegInfinity (Num b) = (if b = 0 then NaN else signed_infinity (0 < b))"
| "js_mul (Num a) PosInfinity = (if a = 0 then NaN else signed_infinity (a < 0))"
| "js_mul (Num a) NegInfinity = (if a = 0 then NaN else signed_infinity (0 < a))"
| "js_mul PosInfinity PosInfinity = PosInfinity"
| "js_mul PosInfinity NegInfinity = NegInfinity"
| "js_mul NegInfinity PosInfinity = NegInfinity"
| "js_mul NegInfinity NegInfinity = PosInfinity"

fun js_div100 :: "jsnum \<Rightarrow> jsnum" where
  "js_div100 (Num a) = to_double (a / 100)"
| "js_div100 x = x"

section \<open>Rendering numbers\<close>

definition digit_char :: "nat \<Rightarrow> char" where
  "digit_char d = ''0123456789abcdef'' ! d"

text \<open>\<open>n.toString(b)\<close> for a natural number and a radix between 2 and 16.\<close>

function nat_toString :: "nat \<Rightarrow> nat \<Rightarrow> string" where
  "nat_toString b n =
     (if n < b \<or> b < 2 then [digit_char n]
      else nat_toString b (n div b) @ [digit_char (n mod b)])"
  by pat_completeness auto
termination
  by (relation "measure (\<lambda>(b, n). n)") auto

declare nat_toString.simps [simp del]

text \<open>
  The conversion of a number to a string, as in a template literal.  An integral value
  below \<open>10 ^ 21\<close> is written with all its digits; for the other finite values the
  runtime chooses the shortest digits that read back as the same double, and that
  choice is the parameter \<open>shortest\<close>.
\<close>

definition number_toString :: "(rat \<Rightarrow> string) \<Rightarrow> jsnum \<Rightarrow> string" where
  "number_toString shortest x =
     (case x of
        NaN \<Rightarrow> ''NaN''
      | PosInfinity \<Rightarrow> ''Infinity''
      | NegInfinity \<Rightarrow> ''-Infinity''
      | Num v \<Rightarrow>
          (if v < 0 then ''-'' else []) @
          (if of_int \<lfloor>\<bar>v\<bar>\<rfloor> = \<bar>v\<bar> \<and> \<bar>v\<bar> < 10 ^ 21 then nat_toString 10 (nat \<lfloor>\<bar>v\<bar>\<rfloor>)
           else shortest \<bar>v\<bar>))"

text \<open>
  The digits of \<open>a.toFixed(6)\<close> for \<open>0 \<le> a < 10 ^ 21\<close>: the integer \<open>n\<close> with
  \<open>n / 10 ^ 6\<close> nearest to \<open>a\<close> (the larger one on a tie), written in decimal, padded
  with zeros to at least seven digits, with a point before the last six.
\<close>

definition fixed6 :: "rat \<Rightarrow> string" where
  "fixed6 a =
     (let n = nat \<lfloor>a * 10 ^ 6 + 1 / 2\<rfloor>;
          m = nat_toString 10 n;
          m' = (if length m \<le> 6 then replicate (7 - length m) CHR ''0'' @ m else m);
          k = length m'
      in take (k - 6) m' @ ''.'' @ drop (k - 6) m')"

text \<open>
  \<open>x.toFixed(6)\<close>: a value that is not finite is converted as by \<open>String\<close>; otherwise
  the sign, and then the six-decimal digits, or from \<open>10 ^ 21\<close> on the plain conversion
  to a string.
\<close>

definition toFixed6 :: "(rat \<Rightarrow> string) \<Rightarrow> jsnum \<Rightarrow> string" where
  "toFixed6 shortest x =
     (case x of
        NaN \<Rightarrow> ''NaN''
      | PosInfinity \<Rightarrow> ''Infinity''
      | NegInfinity \<Rightarrow> ''-Infinity''
      | Num v \<Rightarrow>
          (if v < 0 then ''-'' else []) @
          (if 10 ^ 21 \<le> \<bar>v\<bar> then number_toString shortest (Num \<bar>v\<bar>) else fixed6 \<bar>v\<bar>))"

text \<open>The number a string of decimal digits denotes (used to state what was rendered).\<close>

definition digits_value :: "string \<Rightarrow> nat" where
  "digits_value s = foldl (\<lambda>a c. 10 * a + (of_char c - 48)) 0 s"

section \<open>AgentMesh (src/services/AgentMesh.js)\<close>

record agent_node =
  n_id :: string
  n_endpoint :: string
  n_load :: int
  n_capabilities :: "string list"
  n_available :: bool

record task =
  t_id :: string

record 'a route_result =
  rr_nodeId :: string
  rr_taskId :: string
  rr_result :: 'a

text \<open>
  \<open>selectNode\<close>.  \<open>rnd\<close> is the value of \<open>Math.random()\<close>; an index outside the array
  reads \<open>undefined\<close>.  \<open>reduce\<close> without an initial value starts from the first node.
\<close>

definition selectNode :: "string \<Rightarrow> agent_node list \<Rightarrow> rat \<Rightarrow> agent_node option" where
  "selectNode routingStrategy networkNodes rnd =
     (case networkNodes of
        [] \<Rightarrow> None
      | first # others \<Rightarrow>
          if routingStrategy = ''round-robin'' then
            (let i = \<lfloor>rnd * of_nat (length networkNodes)\<rfloor>
             in if 0 \<le> i \<and> i < int (length networkNodes)
                then Some (networkNodes ! nat i) else None)
          else if routingStrategy = ''load-based'' then
            Some (foldl (\<lambda>prev curr. if n_load curr < n_load prev then curr else prev)
                    first others)
          else Some first)"

definition routeTask ::
  "string \<Rightarrow> agent_node list \<Rightarrow> rat \<Rightarrow> (task \<Rightarrow> agent_node \<Rightarrow> string + 'a) \<Rightarrow> task
     \<Rightarrow> string + 'a route_result" where
  "routeTask routingStrategy networkNodes rnd sendTaskToNode t =
     (case selectNode routingStrategy networkNodes rnd of
        None \<Rightarrow> Inl ''No available nodes for task routing''
      | Some selectedNode \<Rightarrow>
          (case sendTaskToNode t selectedNode of
             Inl err \<Rightarrow> Inl err
           | Inr result \<Rightarrow>
               Inr \<lparr>rr_nodeId = n_id selectedNode, rr_taskId = t_id t, rr_result = result\<rparr>))"

text \<open>
  The payment of \<open>splitPayment\<close>; its amount is the number that \<open>payment.amount * ...\<close>
  computes with.
\<close>

record payment =
  pay_amount :: jsnum
  pay_asset :: string

text \<open>
  A recipient object: \<open>splitPayment\<close> reads its \<open>address\<close> and \<open>share\<close> properties; a
  \<open>to\<close> property may be there as well, and is not read.
\<close>

record recipient =
  rcp_address :: "string option"
  rcp_to :: "string option"
  rcp_share :: jsnum

record payment_split =
  sp_to :: "string option"
  sp_amount :: string
  sp_asset :: string
  sp_memo :: string

record executed_split = payment_split +
  sp_success :: bool

record split_payment_result =
  originalAmount :: jsnum
  splits :: "executed_split list"
  sr_timestamp :: int

text \<open>\<open>recipients.reduce((sum, r) => sum + r.share, 0)\<close>\<close>

definition totalShares :: "recipient list \<Rightarrow> jsnum" where
  "totalShares recipients = foldl (\<lambda>sum r. js_add sum (rcp_share r)) (Num 0) recipients"

definition make_split :: "(rat \<Rightarrow> string) \<Rightarrow> payment \<Rightarrow> recipient \<Rightarrow> payment_split" where
  "make_split shortest p r =
     \<lparr>sp_to = rcp_address r,
      sp_amount = toFixed6 shortest (js_div100 (js_mul (pay_amount p) (rcp_share r))),
      sp_asset = pay_asset p,
      sp_memo = ''Payment split: '' @ number_toString shortest (rcp_share r) @ ''%''\<rparr>"

definition executePayment :: "payment_split \<Rightarrow> executed_split" where
  "executePayment s =
     \<lparr>sp_to = sp_to s, sp_amount = sp_amount s, sp_asset = sp_asset s, sp_memo = sp_memo s,
      sp_success = True\<rparr>"

text \<open>
  \<open>splitPayment\<close> returns its outcome together with the transfers handed to
  \<open>executePayment\<close>, in the order they were issued.
\<close>

definition splitPayment ::
  "(rat \<Rightarrow> string) \<Rightarrow> int \<Rightarrow> payment \<Rightarrow> recipient list
     \<Rightarrow> (string + split_payment_result) \<times> payment_split list" where
  "splitPayment shortest now p recipients =
     (if totalShares recipients \<noteq> Num 100 then (Inl ''Payment shares must total 100%'', [])
      else
        (let planned = map (make_split shortest p) recipients;
             results = map executePayment planned
         in (Inr \<lparr>originalAmount = pay_amount p, splits = results, sr_timestamp = now\<rparr>,
             planned)))"

section \<open>AgentWallet (src/sdk/x402Client.js)\<close>

text \<open>A receipt as the ledger reports it; \<open>cr_status = None\<close>: it has no \<open>status\<close> property.\<close>

record chain_receipt =
  cr_hash :: string
  cr_confirmations :: int
  cr_blockNumber :: int
  cr_status :: "string option"

text \<open>The placeholder ledger query of the source.\<close>

definition getTransactionReceipt :: "string \<Rightarrow> string + chain_receipt option" where
  "getTransactionReceipt h =
     Inr (Some \<lparr>cr_hash = h, cr_confirmations = 1, cr_blockNumber = 12345678,
                cr_status = Some ''confirmed''\<rparr>)"

record wait_options =
  wo_confirmations :: "int option"
  wo_timeout :: "int option"

text \<open>\<open>a || d\<close> on an optional number.\<close>

definition or_num :: "int option \<Rightarrow> int \<Rightarrow> int" where
  "or_num a d = (case a of None \<Rightarrow> d | Some n \<Rightarrow> if truthy_num (Some n) then n else d)"

text \<open>The object literal \<open>{ status: 'confirmed', ...receipt }\<close>: later properties win.\<close>

definition spread_over_confirmed :: "chain_receipt \<Rightarrow> chain_receipt" where
  "spread_over_confirmed receipt =
     receipt\<lparr>cr_status :=
               Some (case cr_status receipt of None \<Rightarrow> ''confirmed'' | Some s \<Rightarrow> s)\<rparr>"

text \<open>
  The polling loop.  Each round reads the clock and, if the deadline has not passed,
  queries the ledger; the list holds, round by round, what the clock and the ledger
  answer.  \<open>None\<close>: the loop is still running when the list ends.
\<close>

fun wait_loop ::
  "int \<Rightarrow> int \<Rightarrow> int \<Rightarrow> (int \<times> (string + chain_receipt option)) list
     \<Rightarrow> (string + chain_receipt) option" where
  "wait_loop startTime maxWait confirmations [] = None"
| "wait_loop startTime maxWait confirmations ((now, answer) # rounds) =
     (if now - startTime < maxWait then
        (case answer of
           Inl err \<Rightarrow> Some (Inl err)
         | Inr None \<Rightarrow> wait_loop startTime maxWait confirmations rounds
         | Inr (Some receipt) \<Rightarrow>
             if cr_confirmations receipt \<ge> confirmations
             then Some (Inr (spread_over_confirmed receipt))
             else wait_loop startTime maxWait confirmations rounds)
      else Some (Inl ''Transaction confirmation timeout''))"

text \<open>A round that neither ends the wait nor throws.\<close>

definition keeps_waiting :: "int \<Rightarrow> int \<Rightarrow> int \<Rightarrow> int \<times> (string + chain_receipt option) \<Rightarrow> bool" where
  "keeps_waiting start maxWait confs poll =
     (fst poll - start < maxWait \<and>
      (case snd poll of
         Inl err \<Rightarrow> False
       | Inr None \<Rightarrow> True
       | Inr (Some r) \<Rightarrow> cr_confirmations r < confs))"

definition waitForConfirmation ::
  "int \<Rightarrow> (int \<times> (string + chain_receipt option)) list \<Rightarrow> wait_options
     \<Rightarrow> (string + chain_receipt) option" where
  "waitForConfirmation startTime rounds options =
     (let confirmations = or_num (wo_confirmations options) 1;
          maxWait = or_num (wo_timeout options) 120000
      in wait_loop startTime maxWait confirmations rounds)"

section \<open>TaskOrchestrator\<close>

record 'd render_config =
  rc_chartType :: string
  rc_data :: 'd
  rc_format :: string

record pay_request =
  pq_to :: string
  pq_amount :: string
  pq_asset :: string
  pq_memo :: string
  pq_jobId :: string
  pq_service :: string
  pq_format :: string
  pq_quality :: string

text \<open>
  What \<open>wallet.pay\<close> resolves to: the hash, the transaction's metadata and the \<open>wait\<close>
  operation, applied to the requested number of confirmations.
\<close>

record payment_tx =
  ptx_hash :: string
  ptx_metadata :: "metadata option"
  ptx_wait :: "int \<Rightarrow> string + chain_receipt"

record 'd notify_payload =
  np_txHash :: string
  np_jobId :: "string option"
  np_data :: 'd
  np_chartType :: string
  np_format :: string

record 'j http_response =
  hr_ok :: bool
  hr_statusText :: string
  hr_json :: "string + 'j"

record render_result =
  rs_success :: bool
  rs_txHash :: string
  rs_jobId :: "string option"

datatype 'd orch_event =
    Ev_Pay pay_request
  | Ev_WaitConfirm int
  | Ev_Notify "'d notify_payload"

definition notifyRenderAgent ::
  "('d notify_payload \<Rightarrow> string + 'j http_response) \<Rightarrow> 'd notify_payload \<Rightarrow> string + 'j" where
  "notifyRenderAgent post payload =
     (case post payload of
        Inl err \<Rightarrow> Inl err
      | Inr response \<Rightarrow>
          if \<not> hr_ok response
          then Inl (''Agent notification failed: '' @ hr_statusText response)
          else hr_json response)"

text \<open>
  \<open>requestRenderService\<close>; its \<open>catch\<close> clause logs and rethrows, so every error
  leaves unchanged.  \<open>uuid\<close> is the value of \<open>crypto.randomUUID()\<close>.
\<close>

definition render_request :: "string \<Rightarrow> 'd render_config \<Rightarrow> pay_request" where
  "render_request uuid config =
     \<lparr>pq_to = ''forge.network/render'', pq_amount = ''3.5'', pq_asset = ''USDC'',
      pq_memo = ''Render '' @ rc_chartType config @ '' chart for analytics v3'',
      pq_jobId = uuid, pq_service = ''render'', pq_format = rc_format config,
      pq_quality = ''high''\<rparr>"

definition requestRenderService ::
  "(pay_request \<Rightarrow> string + payment_tx) \<Rightarrow> ('d notify_payload \<Rightarrow> string + 'j http_response)
     \<Rightarrow> string \<Rightarrow> int \<Rightarrow> 'd render_config \<Rightarrow> (string + render_result) \<times> 'd orch_event list" where
  "requestRenderService pay post uuid defaultConfirmations config =
     (let request = render_request uuid config
      in case pay request of
           Inl err \<Rightarrow> (Inl err, [Ev_Pay request])
         | Inr paymentTx \<Rightarrow>
             (case ptx_wait paymentTx defaultConfirmations of
                Inl err \<Rightarrow> (Inl err, [Ev_Pay request, Ev_WaitConfirm defaultConfirmations])
              | Inr receipt \<Rightarrow>
                  if cr_status receipt = Some ''confirmed'' then
                    (case ptx_metadata paymentTx of
                       None \<Rightarrow>
                         (Inl ''Cannot read properties of undefined (reading 'jobId')'',
                          [Ev_Pay request, Ev_WaitConfirm defaultConfirmations])
                     | Some md \<Rightarrow>
                         (let payload =
                                \<lparr>np_txHash = ptx_hash paymentTx, np_jobId = md_jobId md,
                                 np_data = rc_data config,
                                 np_chartType = rc_chartType config,
                                 np_format = rc_format config\<rparr>
                          in (case notifyRenderAgent post payload of
                                Inl err \<Rightarrow> Inl err
                              | Inr response \<Rightarrow>
                                  Inr \<lparr>rs_success = True, rs_txHash = ptx_hash paymentTx,
                                       rs_jobId = md_jobId md\<rparr>,
                              [Ev_Pay request, Ev_WaitConfirm defaultConfirmations,
                               Ev_Notify payload])))
                  else
                    (Inl ''Payment confirmation failed'',
                     [Ev_Pay request, Ev_WaitConfirm defaultConfirmations])))"

fun is_notify :: "'d orch_event \<Rightarrow> bool" where
  "is_notify (Ev_Notify p) = True"
| "is_notify _ = False"

section \<open>ProofEngine\<close>

record 's transaction =
  tr_hash :: string
  tr_timestamp :: int
  tr_amount :: string
  tr_asset :: string
  tr_from :: string
  tr_to :: string
  tr_metadata :: "metadata option"
  tr_signer :: "'s option"

text \<open>
  The data snapshot of a proof.  \<open>generateProof\<close> builds it without a \<open>service\<close>
  property; \<open>generateAuditSummary\<close> reads one.
\<close>

record proof_data =
  pd_txHash :: string
  pd_timestamp :: int
  pd_amount :: string
  pd_asset :: string
  pd_from :: string
  pd_to :: string
  pd_metadata :: "metadata option"
  pd_service :: "string option"

record tx_proof =
  p_hash :: string
  p_signature :: "string option"
  p_algorithm :: string
  p_timestamp :: int
  p_data :: proof_data

text \<open>\<open>b.toString(16).padStart(2, '0')\<close> for a byte, and the \<open>join\<close> over the digest.\<close>

definition padStart2 :: "string \<Rightarrow> string" where
  "padStart2 s = replicate (2 - length s) CHR ''0'' @ s"

definition hex_byte :: "8 word \<Rightarrow> string" where
  "hex_byte b = padStart2 (nat_toString 16 (unat b))"

definition hex_string :: "8 word list \<Rightarrow> string" where
  "hex_string hashArray = concat (map hex_byte hashArray)"

text \<open>
  \<open>hashProof\<close>.  \<open>stringify\<close> is \<open>JSON.stringify\<close> on snapshots and \<open>digest\<close> the
  SHA-256 of the encoded text, both supplied by the runtime.
\<close>

definition hashProof ::
  "string \<Rightarrow> (proof_data \<Rightarrow> string) \<Rightarrow> (string \<Rightarrow> 8 word list) \<Rightarrow> proof_data \<Rightarrow> string + string" where
  "hashProof algorithm stringify digest d =
     (let jsonString = stringify d
      in if algorithm = ''sha256'' then Inr (hex_string (digest jsonString))
         else Inl (''Unsupported algorithm: '' @ algorithm))"

definition signProof ::
  "string \<Rightarrow> (proof_data \<Rightarrow> string) \<Rightarrow> (string \<Rightarrow> 8 word list) \<Rightarrow> proof_data \<Rightarrow> string + string" where
  "signProof algorithm stringify digest d =
     (case hashProof algorithm stringify digest d of
        Inl err \<Rightarrow> Inl err
      | Inr h \<Rightarrow> Inr (''sig_'' @ take 16 h))"

definition verifySignature :: "proof_data \<Rightarrow> string \<Rightarrow> bool" where
  "verifySignature d signature = True"

text \<open>The object \<open>proofData\<close> that \<open>generateProof\<close> builds from a transaction.\<close>

definition snapshot :: "'s transaction \<Rightarrow> proof_data" where
  "snapshot tx =
     \<lparr>pd_txHash = tr_hash tx, pd_timestamp = tr_timestamp tx, pd_amount = tr_amount tx,
      pd_asset = tr_asset tx, pd_from = tr_from tx, pd_to = tr_to tx,
      pd_metadata = tr_metadata tx, pd_service = None\<rparr>"

text \<open>
  \<open>generateProof\<close>.  \<open>proofStorage\<close>, when configured, is the store operation; it
  answers \<open>Some msg\<close> when it throws.
\<close>

definition generateProof ::
  "string \<Rightarrow> (proof_data \<Rightarrow> string) \<Rightarrow> (string \<Rightarrow> 8 word list) \<Rightarrow> (tx_proof \<Rightarrow> string option) option
     \<Rightarrow> int \<Rightarrow> 's transaction \<Rightarrow> string + tx_proof" where
  "generateProof algorithm stringify digest proofStorage now tx =
     (let proofData = snapshot tx
      in case hashProof algorithm stringify digest proofData of
           Inl err \<Rightarrow> Inl err
         | Inr h \<Rightarrow>
             (case (case tr_signer tx of
                      None \<Rightarrow> Inr None
                    | Some signer \<Rightarrow>
                        (case signProof algorithm stringify digest proofData of
                           Inl err \<Rightarrow> Inl err
                         | Inr sg \<Rightarrow> Inr (Some sg))) of
                Inl err \<Rightarrow> Inl err
              | Inr signature \<Rightarrow>
                  (let prf = \<lparr>p_hash = h, p_signature = signature, p_algorithm = algorithm,
                              p_timestamp = now, p_data = proofData\<rparr>
                   in case proofStorage of
                        None \<Rightarrow> Inr prf
                      | Some store \<Rightarrow>
                          (case store prf of Some err \<Rightarrow> Inl err | None \<Rightarrow> Inr prf))))"

definition verifyProof ::
  "string \<Rightarrow> (proof_data \<Rightarrow> string) \<Rightarrow> (string \<Rightarrow> 8 word list) \<Rightarrow> tx_proof \<Rightarrow> string + bool" where
  "verifyProof algorithm stringify digest prf =
     (case hashProof algorithm stringify digest (p_data prf) of
        Inl err \<Rightarrow> Inl err
      | Inr computedHash \<Rightarrow>
          if computedHash \<noteq> p_hash prf then Inr False
          else if truthy_str (p_signature prf) then
            (case p_signature prf of
               None \<Rightarrow> Inr True
             | Some sg \<Rightarrow> if \<not> verifySignature (p_data prf) sg then Inr False else Inr True)
          else Inr True)"

text \<open>The start of the time range is \<open>Infinity\<close> until a timestamp is seen.\<close>

datatype range_start = Infinity | Finite int

fun before_start :: "int \<Rightarrow> range_start \<Rightarrow> bool" where
  "before_start t Infinity = True"
| "before_start t (Finite s) = (t < s)"

record summary =
  totalTransactions :: nat
  totalAmount :: rat
  assets :: "string \<rightharpoonup> rat"
  services :: "string \<rightharpoonup> nat"
  timeRange_start :: range_start
  timeRange_end :: int

text \<open>
  One round of the \<open>forEach\<close> of \<open>generateAuditSummary\<close>.  Amounts are summed as
  exact rationals; \<open>parseFloat\<close> is the runtime's.
\<close>

definition summary_step :: "(string \<Rightarrow> rat) \<Rightarrow> summary \<Rightarrow> tx_proof \<Rightarrow> summary" where
  "summary_step parseFloat s prf =
     (let d = p_data prf;
          s1 = s\<lparr>totalAmount := totalAmount s + parseFloat (pd_amount d)\<rparr>;
          s2 = s1\<lparr>assets := (assets s1)(pd_asset d \<mapsto>
                    (case assets s1 (pd_asset d) of None \<Rightarrow> 0 | Some a \<Rightarrow> a)
                      + parseFloat (pd_amount d))\<rparr>;
          s3 = (case pd_service d of
                  None \<Rightarrow> s2
                | Some sv \<Rightarrow>
                    if sv = [] then s2
                    else s2\<lparr>services := (services s2)(sv \<mapsto>
                              (case services s2 sv of None \<Rightarrow> 0 | Some c \<Rightarrow> c) + 1)\<rparr>);
          s4 = (if before_start (pd_timestamp d) (timeRange_start s3)
                then s3\<lparr>timeRange_start := Finite (pd_timestamp d)\<rparr> else s3)
      in if pd_timestamp d > timeRange_end s4
         then s4\<lparr>timeRange_end := pd_timestamp d\<rparr> else s4)"

definition generateAuditSummary :: "(string \<Rightarrow> rat) \<Rightarrow> tx_proof list \<Rightarrow> summary" where
  "generateAuditSummary parseFloat proofs =
     foldl (summary_step parseFloat)
       \<lparr>totalTransactions = length proofs, totalAmount = 0, assets = Map.empty,
        services = Map.empty, timeRange_start = Infinity, timeRange_end = 0\<rparr>
       proofs"

text \<open>Whether a timestamp lies in the inclusive range a summary reports.\<close>

fun in_timeRange :: "summary \<Rightarrow> int \<Rightarrow> bool" where
  "in_timeRange s t =
     (case timeRange_start s of Infinity \<Rightarrow> False | Finite a \<Rightarrow> a \<le> t \<and> t \<le> timeRange_end s)"

section \<open>Concrete inputs\<close>

text \<open>A ledger whose receipt matches the expected terms and carries \<open>expiresAt: 0\<close>.\<close>

definition zero_expiry_ledger :: "string \<Rightarrow> string + ledger_receipt option" where
  "zero_expiry_ledger h =
     Inr (Some \<lparr>lr_txHash = h, lr_amount = ''0.5'', lr_asset = ''USDC'', lr_from = ''0xa'',
                lr_to = ''0xb'',
                lr_status = ''confirmed'', lr_blockNumber = 7, lr_service = None,
                lr_metadata = None, lr_jobId = None, lr_expiresAt = Some 0\<rparr>)"

text \<open>A ledger that cannot be reached: the lookup throws.\<close>

definition unreachable_ledger :: "string \<Rightarrow> string + ledger_receipt option" where
  "unreachable_ledger h = Inl ''ledger unreachable''"

text \<open>A ledger whose receipt names a job, and a registry whose jobs all complete.\<close>

definition job_ledger :: "string \<Rightarrow> string + ledger_receipt option" where
  "job_ledger h =
     Inr (Some \<lparr>lr_txHash = h, lr_amount = ''0.5'', lr_asset = ''USDC'', lr_from = ''0xa'',
                lr_to = ''0xb'',
                lr_status = ''confirmed'', lr_blockNumber = 7, lr_service = Some ''render'',
                lr_metadata = Some \<lparr>md_jobId = Some ''job-1''\<rparr>, lr_jobId = None,
                lr_expiresAt = None\<rparr>)"

definition done_registry :: "string \<Rightarrow> string + string run_outcome option" where
  "done_registry j = Inr (Some (Run_Resolved ''done''))"

text \<open>A payment of 100 USDC and two ways of writing its recipients.\<close>

definition payment_100_USDC :: payment where
  "payment_100_USDC = \<lparr>pay_amount = Num 100, pay_asset = ''USDC''\<rparr>"

definition recipients_by_address :: "recipient list" where
  "recipients_by_address =
     [\<lparr>rcp_address = Some ''A'', rcp_to = None, rcp_share = Num 60\<rparr>,
      \<lparr>rcp_address = Some ''B'', rcp_to = None, rcp_share = Num 40\<rparr>]"

definition recipients_by_to :: "recipient list" where
  "recipients_by_to =
     [\<lparr>rcp_address = None, rcp_to = Some ''A'', rcp_share = Num 60\<rparr>,
      \<lparr>rcp_address = None, rcp_to = Some ''B'', rcp_share = Num 40\<rparr>]"

text \<open>Shares that total 90; shares whose exact sum is 101; shares with fractions.\<close>

definition recipients_short :: "recipient list" where
  "recipients_short =
     [\<lparr>rcp_address = Some ''A'', rcp_to = None, rcp_share = Num 60\<rparr>,
      \<lparr>rcp_address = Some ''B'', rcp_to = None, rcp_share = Num 30\<rparr>]"

definition recipients_cancelling :: "recipient list" where
  "recipients_cancelling =
     [\<lparr>rcp_address = Some ''A'', rcp_to = None, rcp_share = Num 10000000000000000\<rparr>,
      \<lparr>rcp_address = Some ''B'', rcp_to = None, rcp_share = Num 101\<rparr>,
      \<lparr>rcp_address = Some ''C'', rcp_to = None, rcp_share = Num (- 10000000000000000)\<rparr>]"

definition recipients_quarters :: "recipient list" where
  "recipients_quarters =
     [\<lparr>rcp_address = Some ''A'', rcp_to = None, rcp_share = Num (133 / 4)\<rparr>,
      \<lparr>rcp_address = Some ''B'', rcp_to = None, rcp_share = Num (267 / 4)\<rparr>]"

text \<open>A payment of 5 USDC split 23 to 77, and a payment whose amount is not finite.\<close>

definition payment_5_USDC :: payment where
  "payment_5_USDC = \<lparr>pay_amount = Num 5, pay_asset = ''USDC''\<rparr>"

definition recipients_23_77 :: "recipient list" where
  "recipients_23_77 =
     [\<lparr>rcp_address = Some ''A'', rcp_to = None, rcp_share = Num 23\<rparr>,
      \<lparr>rcp_address = Some ''B'', rcp_to = None, rcp_share = Num 77\<rparr>]"

definition payment_unbounded :: payment where
  "payment_unbounded = \<lparr>pay_amount = PosInfinity, pay_asset = ''USDC''\<rparr>"

text \<open>A stand-in for the shortest-digits conversion, for inputs that do not reach it.\<close>

definition no_fraction :: "rat \<Rightarrow> string" where
  "no_fraction a = []"

text \<open>Nodes: one that is not available, and two with different loads.\<close>

definition node_down :: agent_node where
  "node_down = \<lparr>n_id = ''n0'', n_endpoint = ''http://n0'', n_load = 10,
                  n_capabilities = [], n_available = False\<rparr>"

definition node_busy :: agent_node where
  "node_busy = \<lparr>n_id = ''n1'', n_endpoint = ''http://n1'', n_load = 80,
                  n_capabilities = [], n_available = True\<rparr>"

definition node_idle :: agent_node where
  "node_idle = \<lparr>n_id = ''n2'', n_endpoint = ''http://n2'', n_load = 5,
                  n_capabilities = [], n_available = True\<rparr>"

definition echo_node :: "task \<Rightarrow> agent_node \<Rightarrow> string + string" where
  "echo_node t n = Inr (n_endpoint n)"

text \<open>
  Wallets whose confirmation wait times out, returns a receipt that is still pending,
  or returns a confirmed receipt; and a render agent that answers \<open>200 OK\<close>.
\<close>

definition wallet_timeout :: "pay_request \<Rightarrow> string + payment_tx" where
  "wallet_timeout request =
     Inr \<lparr>ptx_hash = ''0xfeed'', ptx_metadata = Some \<lparr>md_jobId = Some (pq_jobId request)\<rparr>,
          ptx_wait = (\<lambda>c. Inl ''Transaction confirmation timeout'')\<rparr>"

definition wallet_pending :: "pay_request \<Rightarrow> string + payment_tx" where
  "wallet_pending request =
     Inr \<lparr>ptx_hash = ''0xfeed'', ptx_metadata = Some \<lparr>md_jobId = Some (pq_jobId request)\<rparr>,
          ptx_wait = (\<lambda>c. Inr \<lparr>cr_hash = ''0xfeed'', cr_confirmations = c,
                                 cr_blockNumber = 7, cr_status = Some ''pending''\<rparr>)\<rparr>"

definition wallet_confirmed :: "pay_request \<Rightarrow> string + payment_tx" where
  "wallet_confirmed request =
     Inr \<lparr>ptx_hash = ''0xfeed'', ptx_metadata = Some \<lparr>md_jobId = Some (pq_jobId request)\<rparr>,
          ptx_wait = (\<lambda>c. Inr \<lparr>cr_hash = ''0xfeed'', cr_confirmations = c,
                                 cr_blockNumber = 7, cr_status = Some ''confirmed''\<rparr>)\<rparr>"

definition agent_ok :: "string notify_payload \<Rightarrow> string + string http_response" where
  "agent_ok payload = Inr \<lparr>hr_ok = True, hr_statusText = ''OK'', hr_json = Inr ''started''\<rparr>"

definition bar_chart :: "string render_config" where
  "bar_chart = \<lparr>rc_chartType = ''bar'', rc_data = ''1,2,3'', rc_format = ''png''\<rparr>"

text \<open>Ledger receipts with a status of their own, and without one.\<close>

definition receipt_pending :: chain_receipt where
  "receipt_pending = \<lparr>cr_hash = ''0xfeed'', cr_confirmations = 3, cr_blockNumber = 7,
                       cr_status = Some ''pending''\<rparr>"

definition receipt_bare :: chain_receipt where
  "receipt_bare = \<lparr>cr_hash = ''0xfeed'', cr_confirmations = 3, cr_blockNumber = 7,
                    cr_status = None\<rparr>"

text \<open>
  A transaction, with and without a signer; a serializer that writes the hash, the
  amount and the asset of a snapshot; a digest that returns the bytes of the text.
\<close>

definition demo_tx :: "string option \<Rightarrow> string transaction" where
  "demo_tx signer =
     \<lparr>tr_hash = ''0xabc'', tr_timestamp = 1700000000000, tr_amount = ''0.5'',
      tr_asset = ''USDC'', tr_from = ''0xa'', tr_to = ''0xb'', tr_metadata = None,
      tr_signer = signer\<rparr>"

definition demo_stringify :: "proof_data \<Rightarrow> string" where
  "demo_stringify d = pd_txHash d @ '','' @ pd_amount d @ '','' @ pd_asset d"

definition demo_digest :: "string \<Rightarrow> 8 word list" where
  "demo_digest s = map (\<lambda>c. of_nat (of_char c)) s"

section \<open>Properties of PaymentVerifier\<close>

lemma verify_returns: "\<exists>v. verify fetch now h ea eas = Inr v"
  by (simp add: verify_def split: sum.splits)

lemma verify_valid_iff:
  assumes "verify fetch now h ea eas = Inr v"
  shows "valid v \<longleftrightarrow>
     (\<exists>r. fetch h = Inr (Some r) \<and> lr_amount r = ea \<and> lr_asset r = eas
        \<and> lr_status r = ''confirmed''
        \<and> (\<forall>e. lr_expiresAt r = Some e \<longrightarrow> e = 0 \<or> now \<le> e))"
  using assms
  by (auto simp: verify_def verify_try_def invalid_obj_def expired_def truthy_num_def
           split: sum.splits option.splits if_splits)

lemma verify_not_found:
  assumes "verify fetch now h ea eas = Inr v" "fetch h = Inr None"
  shows "v = (invalid_obj ''Transaction not found'')\<lparr>txHash := Some h\<rparr>"
  using assms by (simp add: verify_def verify_try_def)

lemma verify_fault:
  assumes "verify fetch now h ea eas = Inr v" "fetch h = Inl msg"
  shows "v = (invalid_obj msg)\<lparr>txHash := Some h\<rparr>"
  using assms by (simp add: verify_def verify_try_def)

lemma verify_amount_mismatch:
  assumes "verify fetch now h ea eas = Inr v" "fetch h = Inr (Some r)" "lr_amount r \<noteq> ea"
  shows "v = (invalid_obj ''Amount mismatch'')
               \<lparr>expected := Some ea, received := Some (lr_amount r)\<rparr>"
  using assms by (simp add: verify_def verify_try_def)

lemma verify_asset_mismatch:
  assumes "verify fetch now h ea eas = Inr v" "fetch h = Inr (Some r)" "lr_amount r = ea"
    "lr_asset r \<noteq> eas"
  shows "v = (invalid_obj ''Asset mismatch'')
               \<lparr>expected := Some eas, received := Some (lr_asset r)\<rparr>"
  using assms by (simp add: verify_def verify_try_def)

lemma verify_not_confirmed:
  assumes "verify fetch now h ea eas = Inr v" "fetch h = Inr (Some r)" "lr_amount r = ea"
    "lr_asset r = eas" "lr_status r \<noteq> ''confirmed''"
  shows "v = (invalid_obj ''Transaction not confirmed'')\<lparr>status := Some (lr_status r)\<rparr>"
  using assms by (simp add: verify_def verify_try_def)

lemma verify_expired:
  assumes "verify fetch now h ea eas = Inr v" "fetch h = Inr (Some r)" "lr_amount r = ea"
    "lr_asset r = eas" "lr_status r = ''confirmed''" "lr_expiresAt r = Some e" "e \<noteq> 0"
    "e < now"
  shows "v = (invalid_obj ''Payment expired'')\<lparr>expiresAt := Some e\<rparr>"
  using assms by (simp add: verify_def verify_try_def expired_def truthy_num_def)

lemma verify_passthrough:
  assumes "verify fetch now h ea eas = Inr v" "fetch h = Inr (Some r)" "valid v"
  shows "v_from v = Some (lr_from r) \<and> v_to v = Some (lr_to r)
       \<and> blockNumber v = Some (lr_blockNumber r)"
  using assms
  by (auto simp: verify_def verify_try_def invalid_obj_def split: if_splits)

lemma verify_invalid_has_reason:
  assumes "verify fetch now h ea eas = Inr v" "\<not> valid v"
  shows "\<exists>why. reason v = Some why"
  using assms
  by (auto simp: verify_def verify_try_def invalid_obj_def
           split: sum.splits option.splits if_splits)

text \<open>
  C1 (as stated).  The claim makes a receipt invalid whenever the \<open>expiresAt\<close> it carries
  is earlier than the current time.  A receipt that matches the expected amount and
  asset, is confirmed and carries \<open>expiresAt: 0\<close> is verified as valid at time 1: the
  guard \<open>receipt.expiresAt && ...\<close> is falsy for 0, and the expiry test is skipped.
\<close>

theorem verify_zero_expiry_counterexample:
  "verify zero_expiry_ledger 1 ''0xabc'' ''0.5'' ''USDC'' =
     Inr \<lparr>valid = True, reason = None, txHash = Some ''0xabc'', expected = None,
          received = None, status = None, expiresAt = None, amount = Some ''0.5'',
          asset = Some ''USDC'', v_from = Some ''0xa'', v_to = Some ''0xb'',
          blockNumber = Some 7, service = None, v_metadata = None, jobId = None\<rparr>"
  by (simp add: verify_def verify_try_def zero_expiry_ledger_def expired_def truthy_num_def)

text \<open>
  C1 (amended).  \<open>verify\<close> returns a receipt with \<open>valid = true\<close> if and only if the
  ledger receipt exists, its amount and asset equal the expected strings, its status is
  \<open>confirmed\<close>, and any non-zero \<open>expiresAt\<close> it carries is not earlier than the current
  time.  A missing receipt gives \<open>Transaction not found\<close>; an amount mismatch gives
  \<open>Amount mismatch\<close> with expected and received; then an asset mismatch gives
  \<open>Asset mismatch\<close> with expected and received; then a status other than \<open>confirmed\<close>
  gives \<open>Transaction not confirmed\<close>; the expiry test comes last and gives
  \<open>Payment expired\<close>.  On success \<open>from\<close>, \<open>to\<close> and \<open>blockNumber\<close> are those of the
  ledger receipt.
\<close>

theorem verify_decides:
  "\<exists>v. verify fetch now h ea eas = Inr v \<and>
     (valid v \<longleftrightarrow>
        (\<exists>r. fetch h = Inr (Some r) \<and> lr_amount r = ea \<and> lr_asset r = eas
           \<and> lr_status r = ''confirmed''
           \<and> (\<forall>e. lr_expiresAt r = Some e \<longrightarrow> e = 0 \<or> now \<le> e))) \<and>
     (fetch h = Inr None \<longrightarrow>
        \<not> valid v \<and> reason v = Some ''Transaction not found'' \<and> txHash v = Some h) \<and>
     (\<forall>r. fetch h = Inr (Some r) \<longrightarrow>
        (lr_amount r \<noteq> ea \<longrightarrow>
           \<not> valid v \<and> reason v = Some ''Amount mismatch''
           \<and> expected v = Some ea \<and> received v = Some (lr_amount r)) \<and>
        (lr_amount r = ea \<and> lr_asset r \<noteq> eas \<longrightarrow>
           \<not> valid v \<and> reason v = Some ''Asset mismatch''
           \<and> expected v = Some eas \<and> received v = Some (lr_asset r)) \<and>
        (lr_amount r = ea \<and> lr_asset r = eas \<and> lr_status r \<noteq> ''confirmed'' \<longrightarrow>
           \<not> valid v \<and> reason v = Some ''Transaction not confirmed''
           \<and> status v = Some (lr_status r)) \<and>
        (lr_amount r = ea \<and> lr_asset r = eas \<and> lr_status r = ''confirmed''
           \<and> (\<exists>e. lr_expiresAt r = Some e \<and> e \<noteq> 0 \<and> e < now) \<longrightarrow>
           \<not> valid v \<and> reason v = Some ''Payment expired''
           \<and> expiresAt v = lr_expiresAt r) \<and>
        (valid v \<longrightarrow>
           v_from v = Some (lr_from r) \<and> v_to v = Some (lr_to r)
           \<and> blockNumber v = Some (lr_blockNumber r)))"
proof -
  obtain v where v: "verify fetch now h ea eas = Inr v"
    using verify_returns by blast
  have nf: "fetch h = Inr None \<longrightarrow>
        \<not> valid v \<and> reason v = Some ''Transaction not found'' \<and> txHash v = Some h"
    using verify_not_found [OF v] by (simp add: invalid_obj_def)
  have "\<forall>r. fetch h = Inr (Some r) \<longrightarrow>
        (lr_amount r \<noteq> ea \<longrightarrow>
           \<not> valid v \<and> reason v = Some ''Amount mismatch''
           \<and> expected v = Some ea \<and> received v = Some (lr_amount r)) \<and>
        (lr_amount r = ea \<and> lr_asset r \<noteq> eas \<longrightarrow>
           \<not> valid v \<and> reason v = Some ''Asset mismatch''
           \<and> expected v = Some eas \<and> received v = Some (lr_asset r)) \<and>
        (lr_amount r = ea \<and> lr_asset r = eas \<and> lr_status r \<noteq> ''confirmed'' \<longrightarrow>
           \<not> valid v \<and> reason v = Some ''Transaction not confirmed''
           \<and> status v = Some (lr_status r)) \<and>
        (lr_amount r = ea \<and> lr_asset r = eas \<and> lr_status r = ''confirmed''
           \<and> (\<exists>e. lr_expiresAt r = Some e \<and> e \<noteq> 0 \<and> e < now) \<longrightarrow>
           \<not> valid v \<and> reason v = Some ''Payment expired''
           \<and> expiresAt v = lr_expiresAt r) \<and>
        (valid v \<longrightarrow>
           v_from v = Some (lr_from r) \<and> v_to v = Some (lr_to r)
           \<and> blockNumber v = Some (lr_blockNumber r))"
  proof (intro allI impI conjI)
    fix r assume r: "fetch h = Inr (Some r)"
    { assume "lr_amount r \<noteq> ea"
      note m = verify_amount_mismatch [OF v r this]
      show "\<not> valid v" "reason v = Some ''Amount mismatch''" "expected v = Some ea"
        "received v = Some (lr_amount r)"
        by (simp_all add: m invalid_obj_def) }
    { assume "lr_amount r = ea \<and> lr_asset r \<noteq> eas"
      then have m: "v = (invalid_obj ''Asset mismatch'')
               \<lparr>expected := Some eas, received := Some (lr_asset r)\<rparr>"
        using verify_asset_mismatch [OF v r] by blast
      show "\<not> valid v" "reason v = Some ''Asset mismatch''" "expected v = Some eas"
        "received v = Some (lr_asset r)"
        by (simp_all add: m invalid_obj_def) }
    { assume "lr_amount r = ea \<and> lr_asset r = eas \<and> lr_status r \<noteq> ''confirmed''"
      then have m: "v = (invalid_obj ''Transaction not confirmed'')
               \<lparr>status := Some (lr_status r)\<rparr>"
        using verify_not_confirmed [OF v r] by blast
      show "\<not> valid v" "reason v = Some ''Transaction not confirmed''"
        "status v = Some (lr_status r)"
        by (simp_all add: m invalid_obj_def) }
    { assume a: "lr_amount r = ea \<and> lr_asset r = eas \<and> lr_status r = ''confirmed''
           \<and> (\<exists>e. lr_expiresAt r = Some e \<and> e \<noteq> 0 \<and> e < now)"
      then obtain e where e: "lr_expiresAt r = Some e" "e \<noteq> 0" "e < now" by blast
      have m: "v = (invalid_obj ''Payment expired'')\<lparr>expiresAt := Some e\<rparr>"
        using verify_expired [OF v r _ _ _ e] a by blast
      show "\<not> valid v" "reason v = Some ''Payment expired''"
        "expiresAt v = lr_expiresAt r"
        by (simp_all add: m e invalid_obj_def) }
    { assume "valid v"
      note m = verify_passthrough [OF v r this]
      show "v_from v = Some (lr_from r)" "v_to v = Some (lr_to r)"
        "blockNumber v = Some (lr_blockNumber r)"
        using m by simp_all }
  qed
  with v verify_valid_iff [OF v] nf show ?thesis by blast
qed

theorem verify_decides_witness:
  "\<exists>v. verify fetchTransactionReceipt 0 ''0xabc'' ''0.5'' ''USDC'' = Inr v \<and> valid v
     \<and> v_from v = Some ''0x...'' \<and> v_to v = Some ''0x...''
     \<and> blockNumber v = Some 12345678"
  using verify_decides [of fetchTransactionReceipt 0 "''0xabc''" "''0.5''" "''USDC''"]
  by (auto simp: fetchTransactionReceipt_def)

text \<open>
  C4 (as stated).  The claim lets a fault of the ledger lookup leave \<open>verify\<close> as a
  raised error.  With a ledger whose lookup throws \<open>ledger unreachable\<close>, \<open>verify\<close>
  returns an invalid receipt whose reason is that message: the \<open>catch\<close> clause of
  \<open>verify\<close> converts every thrown error.
\<close>

theorem verify_fault_counterexample:
  "verify unreachable_ledger 1 ''0xabc'' ''0.5'' ''USDC'' =
     Inr \<lparr>valid = False, reason = Some ''ledger unreachable'', txHash = Some ''0xabc'',
          expected = None, received = None, status = None, expiresAt = None,
          amount = None, asset = None, v_from = None, v_to = None, blockNumber = None,
          service = None, v_metadata = None, jobId = None\<rparr>"
  by (simp add: verify_def verify_try_def unreachable_ledger_def invalid_obj_def)

text \<open>
  C4 (amended).  \<open>verify\<close> never raises: it returns a receipt for every outcome, every
  invalid receipt carries a reason, and an error thrown by the ledger lookup is
  returned as an invalid receipt whose reason is the error's message, together with
  the transaction hash.
\<close>

theorem verify_never_raises:
  "\<exists>v. verify fetch now h ea eas = Inr v \<and>
     (\<not> valid v \<longrightarrow> (\<exists>why. reason v = Some why)) \<and>
     (\<forall>msg. fetch h = Inl msg \<longrightarrow>
        \<not> valid v \<and> reason v = Some msg \<and> txHash v = Some h)"
proof -
  obtain v where v: "verify fetch now h ea eas = Inr v"
    using verify_returns by blast
  have "\<forall>msg. fetch h = Inl msg \<longrightarrow>
        \<not> valid v \<and> reason v = Some msg \<and> txHash v = Some h"
    using verify_fault [OF v] by (simp add: invalid_obj_def)
  with v verify_invalid_has_reason [OF v] show ?thesis by blast
qed

theorem verify_never_raises_witness:
  "\<exists>v. verify unreachable_ledger 1 ''0xabc'' ''0.5'' ''USDC'' = Inr v \<and> \<not> valid v
     \<and> reason v = Some ''ledger unreachable'' \<and> txHash v = Some ''0xabc''"
  using verify_never_raises [of unreachable_ledger 1 "''0xabc''" "''0.5''" "''USDC''"]
  by (auto simp: unreachable_ledger_def)

section \<open>Properties of PaymentProcessor\<close>

lemma audits_append: "audits (xs @ ys) = audits xs @ audits ys"
  by (induction xs rule: audits.induct) simp_all

lemma executeJob_events:
  "executeJob registry j = (out, evs) \<Longrightarrow>
     (evs = [Ev_GetJob j] \<and> (\<exists>err. out = Inl err))
     \<or> evs = [Ev_GetJob j, Ev_SetContext j, Ev_Run j]"
  by (auto simp: executeJob_def split: sum.splits option.splits)

lemma process_try_Inl:
  assumes "process_try verifier registry now h cfg = (Inl err, evs)"
  shows "audits evs = [] \<and> evs \<noteq> [] \<and> hd evs = Ev_Verify h"
  using assms
  by (auto simp: process_try_def split: sum.splits option.splits if_splits prod.splits
           dest!: executeJob_events)

lemma process_try_invalid:
  assumes "process_try verifier registry now h cfg = (Inr res, evs)" "\<not> pr_success res"
  shows "evs = [Ev_Verify h] \<and>
     (\<exists>receipt. verifier h (jc_amount cfg) (or_default (jc_asset cfg) ''USDC'') = Inr receipt
        \<and> \<not> valid receipt \<and> pr_error res = reason receipt)"
  using assms
  by (auto simp: process_try_def split: sum.splits option.splits if_splits prod.splits)

lemma process_try_success:
  assumes "process_try verifier registry now h cfg = (Inr res, evs)" "pr_success res"
  shows "\<exists>j result.
     res = \<lparr>pr_success = True, pr_jobId = Some j, pr_result = Some result,
            pr_error = None\<rparr> \<and>
     evs = [Ev_Verify h, Ev_GetJob j, Ev_SetContext j, Ev_Run j,
            Ev_Audit \<lparr>ae_jobId = Some j, ae_txHash = h, ae_status = ''completed'',
                      ae_timestamp = Some now, ae_result = Some result, ae_error = None\<rparr>]"
  using assms
  by (auto simp: process_try_def split: sum.splits option.splits if_splits prod.splits
           dest!: executeJob_events)

text \<open>
  C2 (as stated).  The claim has an audit entry written also when verification returns
  an invalid receipt.  With the placeholder ledger (amount \<open>0.5\<close>) and an expected
  amount of \<open>0.4\<close>, the request returns \<open>{success: false, error: 'Amount mismatch'}\<close>
  and the only step taken is the verification: no audit entry is written.
\<close>

theorem processPaymentRequest_invalid_counterexample:
  "processPaymentRequest (verify fetchTransactionReceipt 0) getJob 0 ''0xabc''
       \<lparr>jc_amount = ''0.4'', jc_asset = None\<rparr>
     = (Inr \<lparr>pr_success = False, pr_jobId = None, pr_result = (None :: string option),
              pr_error = Some ''Amount mismatch''\<rparr>,
        [Ev_Verify ''0xabc''])"
  by (simp add: processPaymentRequest_def process_try_def verify_def verify_try_def
        fetchTransactionReceipt_def invalid_obj_def or_default_def)

lemma processPaymentRequest_outcomes:
  assumes "processPaymentRequest verifier registry now h cfg = (out, evs)"
  shows
    "(\<forall>err. out = Inl err \<longrightarrow>
        audits evs = [\<lparr>ae_jobId = None, ae_txHash = h, ae_status = ''failed'',
                       ae_timestamp = None, ae_result = None, ae_error = Some err\<rparr>]
        \<and> last evs = Ev_Audit \<lparr>ae_jobId = None, ae_txHash = h, ae_status = ''failed'',
                       ae_timestamp = None, ae_result = None, ae_error = Some err\<rparr>
        \<and> hd evs = Ev_Verify h) \<and>
     (\<forall>res. out = Inr res \<and> pr_success res \<longrightarrow>
        (\<exists>j result.
           res = \<lparr>pr_success = True, pr_jobId = Some j, pr_result = Some result,
                  pr_error = None\<rparr>
           \<and> evs = [Ev_Verify h, Ev_GetJob j, Ev_SetContext j, Ev_Run j,
                    Ev_Audit \<lparr>ae_jobId = Some j, ae_txHash = h, ae_status = ''completed'',
                              ae_timestamp = Some now, ae_result = Some result,
                              ae_error = None\<rparr>])) \<and>
     (\<forall>res. out = Inr res \<and> \<not> pr_success res \<longrightarrow>
        audits evs = [] \<and>
        (\<exists>receipt. verifier h (jc_amount cfg) (or_default (jc_asset cfg) ''USDC'') = Inr receipt
           \<and> \<not> valid receipt \<and> pr_error res = reason receipt))"
proof (intro conjI allI impI)
  fix err assume "out = Inl err"
  with assms obtain pre where p: "process_try verifier registry now h cfg = (Inl err, pre)"
    and e: "evs = pre @ [Ev_Audit \<lparr>ae_jobId = None, ae_txHash = h, ae_status = ''failed'',
                       ae_timestamp = None, ae_result = None, ae_error = Some err\<rparr>]"
    by (auto simp: processPaymentRequest_def split: prod.splits sum.splits)
  note q = process_try_Inl [OF p]
  show "audits evs = [\<lparr>ae_jobId = None, ae_txHash = h, ae_status = ''failed'',
                       ae_timestamp = None, ae_result = None, ae_error = Some err\<rparr>]"
    using q by (simp add: e audits_append)
  show "last evs = Ev_Audit \<lparr>ae_jobId = None, ae_txHash = h, ae_status = ''failed'',
                       ae_timestamp = None, ae_result = None, ae_error = Some err\<rparr>"
    by (simp add: e)
  show "hd evs = Ev_Verify h"
    using q by (simp add: e)
next
  fix res assume a: "out = Inr res \<and> pr_success res"
  with assms have p: "process_try verifier registry now h cfg = (Inr res, evs)"
    by (auto simp: processPaymentRequest_def split: prod.splits sum.splits)
  from process_try_success [OF p] a
  show "\<exists>j result.
           res = \<lparr>pr_success = True, pr_jobId = Some j, pr_result = Some result,
                  pr_error = None\<rparr>
           \<and> evs = [Ev_Verify h, Ev_GetJob j, Ev_SetContext j, Ev_Run j,
                    Ev_Audit \<lparr>ae_jobId = Some j, ae_txHash = h, ae_status = ''completed'',
                              ae_timestamp = Some now, ae_result = Some result,
                              ae_error = None\<rparr>]"
    by blast
next
  fix res assume a: "out = Inr res \<and> \<not> pr_success res"
  with assms have p: "process_try verifier registry now h cfg = (Inr res, evs)"
    by (auto simp: processPaymentRequest_def split: prod.splits sum.splits)
  from process_try_invalid [OF p] a
  show "audits evs = []"
    by simp
  from process_try_invalid [OF p] a
  show "\<exists>receipt. verifier h (jc_amount cfg) (or_default (jc_asset cfg) ''USDC'') = Inr receipt
           \<and> \<not> valid receipt \<and> pr_error res = reason receipt"
    by blast
qed

lemma process_of_invalid:
  assumes "verifier h (jc_amount cfg) (or_default (jc_asset cfg) ''USDC'') = Inr receipt"
    "\<not> valid receipt"
  shows "processPaymentRequest verifier registry now h cfg
           = (Inr \<lparr>pr_success = False, pr_jobId = None, pr_result = None,
                    pr_error = reason receipt\<rparr>, [Ev_Verify h])"
  using assms by (simp add: processPaymentRequest_def process_try_def)

lemma process_of_verifier_fault:
  assumes "verifier h (jc_amount cfg) (or_default (jc_asset cfg) ''USDC'') = Inl err"
  shows "processPaymentRequest verifier registry now h cfg
           = (Inl err,
              [Ev_Verify h,
               Ev_Audit \<lparr>ae_jobId = None, ae_txHash = h, ae_status = ''failed'',
                         ae_timestamp = None, ae_result = None, ae_error = Some err\<rparr>])"
  using assms by (simp add: processPaymentRequest_def process_try_def)

lemma process_of_timeout:
  assumes "verifier h (jc_amount cfg) (or_default (jc_asset cfg) ''USDC'') = Inr receipt"
    "valid receipt" "receipt_jobId receipt = Some j" "j \<noteq> []"
    "registry j = Inr (Some Run_Timeout)"
  shows "processPaymentRequest verifier registry now h cfg
           = (Inl ''Job timeout'',
              [Ev_Verify h, Ev_GetJob j, Ev_SetContext j, Ev_Run j,
               Ev_Audit \<lparr>ae_jobId = None, ae_txHash = h, ae_status = ''failed'',
                         ae_timestamp = None, ae_result = None,
                         ae_error = Some ''Job timeout''\<rparr>])"
  using assms by (simp add: processPaymentRequest_def process_try_def executeJob_def)

lemma process_of_resolved:
  assumes "verifier h (jc_amount cfg) (or_default (jc_asset cfg) ''USDC'') = Inr receipt"
    "valid receipt" "receipt_jobId receipt = Some j" "j \<noteq> []"
    "registry j = Inr (Some (Run_Resolved result))"
  shows "processPaymentRequest verifier registry now h cfg
           = (Inr \<lparr>pr_success = True, pr_jobId = Some j, pr_result = Some result,
                    pr_error = None\<rparr>,
              [Ev_Verify h, Ev_GetJob j, Ev_SetContext j, Ev_Run j,
               Ev_Audit \<lparr>ae_jobId = Some j, ae_txHash = h, ae_status = ''completed'',
                         ae_timestamp = Some now, ae_result = Some result,
                         ae_error = None\<rparr>])"
  using assms by (simp add: processPaymentRequest_def process_try_def executeJob_def)


text \<open>
  C2 (amended).  When the attempt ends in a raised error, exactly one audit entry is
  written, with status \<open>failed\<close> and the error's message, and it is the last step, after
  the verification.  When the attempt succeeds, exactly one audit entry is written,
  with status \<open>completed\<close>, the job id and the result, as the last step, after the
  verification and the run of the job.  An unsuccessful return comes from an invalid
  receipt only, and writes no audit entry.  Conversely: when verification returns an
  invalid receipt, the method returns \<open>{success: false, error: reason}\<close>, the
  verification is its only step, and no audit entry is written; when the verifier
  throws, the error is audited and rethrown; when the job of a valid receipt does not
  finish in time, \<open>Job timeout\<close> is audited and raised; when it finishes, the result
  is audited and returned.
\<close>

theorem processPaymentRequest_audit:
  assumes "processPaymentRequest verifier registry now h cfg = (out, evs)"
  shows
    "(\<forall>err. out = Inl err \<longrightarrow>
        audits evs = [\<lparr>ae_jobId = None, ae_txHash = h, ae_status = ''failed'',
                       ae_timestamp = None, ae_result = None, ae_error = Some err\<rparr>]
        \<and> last evs = Ev_Audit \<lparr>ae_jobId = None, ae_txHash = h, ae_status = ''failed'',
                       ae_timestamp = None, ae_result = None, ae_error = Some err\<rparr>
        \<and> hd evs = Ev_Verify h) \<and>
     (\<forall>res. out = Inr res \<and> pr_success res \<longrightarrow>
        (\<exists>j result.
           res = \<lparr>pr_success = True, pr_jobId = Some j, pr_result = Some result,
                  pr_error = None\<rparr>
           \<and> evs = [Ev_Verify h, Ev_GetJob j, Ev_SetContext j, Ev_Run j,
                    Ev_Audit \<lparr>ae_jobId = Some j, ae_txHash = h, ae_status = ''completed'',
                              ae_timestamp = Some now, ae_result = Some result,
                              ae_error = None\<rparr>])) \<and>
     (\<forall>res. out = Inr res \<and> \<not> pr_success res \<longrightarrow>
        audits evs = [] \<and>
        (\<exists>receipt. verifier h (jc_amount cfg) (or_default (jc_asset cfg) ''USDC'') = Inr receipt
           \<and> \<not> valid receipt \<and> pr_error res = reason receipt)) \<and>
     (\<forall>receipt.
        verifier h (jc_amount cfg) (or_default (jc_asset cfg) ''USDC'') = Inr receipt
        \<and> \<not> valid receipt \<longrightarrow>
        out = Inr \<lparr>pr_success = False, pr_jobId = None, pr_result = None,
                   pr_error = reason receipt\<rparr>
        \<and> evs = [Ev_Verify h] \<and> audits evs = []) \<and>
     (\<forall>err.
        verifier h (jc_amount cfg) (or_default (jc_asset cfg) ''USDC'') = Inl err \<longrightarrow>
        out = Inl err
        \<and> evs = [Ev_Verify h,
                 Ev_Audit \<lparr>ae_jobId = None, ae_txHash = h, ae_status = ''failed'',
                           ae_timestamp = None, ae_result = None, ae_error = Some err\<rparr>]) \<and>
     (\<forall>receipt j.
        verifier h (jc_amount cfg) (or_default (jc_asset cfg) ''USDC'') = Inr receipt
        \<and> valid receipt \<and> receipt_jobId receipt = Some j \<and> j \<noteq> []
        \<and> registry j = Inr (Some Run_Timeout) \<longrightarrow>
        out = Inl ''Job timeout''
        \<and> evs = [Ev_Verify h, Ev_GetJob j, Ev_SetContext j, Ev_Run j,
                 Ev_Audit \<lparr>ae_jobId = None, ae_txHash = h, ae_status = ''failed'',
                           ae_timestamp = None, ae_result = None,
                           ae_error = Some ''Job timeout''\<rparr>]) \<and>
     (\<forall>receipt j result.
        verifier h (jc_amount cfg) (or_default (jc_asset cfg) ''USDC'') = Inr receipt
        \<and> valid receipt \<and> receipt_jobId receipt = Some j \<and> j \<noteq> []
        \<and> registry j = Inr (Some (Run_Resolved result)) \<longrightarrow>
        out = Inr \<lparr>pr_success = True, pr_jobId = Some j, pr_result = Some result,
                   pr_error = None\<rparr>
        \<and> evs = [Ev_Verify h, Ev_GetJob j, Ev_SetContext j, Ev_Run j,
                 Ev_Audit \<lparr>ae_jobId = Some j, ae_txHash = h, ae_status = ''completed'',
                           ae_timestamp = Some now, ae_result = Some result,
                           ae_error = None\<rparr>])"
proof -
  note o = processPaymentRequest_outcomes [OF assms]
  have 4: "\<forall>receipt.
        verifier h (jc_amount cfg) (or_default (jc_asset cfg) ''USDC'') = Inr receipt
        \<and> \<not> valid receipt \<longrightarrow>
        out = Inr \<lparr>pr_success = False, pr_jobId = None, pr_result = None,
                   pr_error = reason receipt\<rparr>
        \<and> evs = [Ev_Verify h] \<and> audits evs = []"
  proof (intro allI impI)
    fix receipt
    assume "verifier h (jc_amount cfg) (or_default (jc_asset cfg) ''USDC'') = Inr receipt
        \<and> \<not> valid receipt"
    then have "processPaymentRequest verifier registry now h cfg
           = (Inr \<lparr>pr_success = False, pr_jobId = None, pr_result = None,
                    pr_error = reason receipt\<rparr>, [Ev_Verify h])"
      using process_of_invalid by blast
    with assms show "out = Inr \<lparr>pr_success = False, pr_jobId = None, pr_result = None,
                   pr_error = reason receipt\<rparr>
        \<and> evs = [Ev_Verify h] \<and> audits evs = []"
      by auto
  qed
  have 5: "\<forall>err.
        verifier h (jc_amount cfg) (or_default (jc_asset cfg) ''USDC'') = Inl err \<longrightarrow>
        out = Inl err
        \<and> evs = [Ev_Verify h,
                 Ev_Audit \<lparr>ae_jobId = None, ae_txHash = h, ae_status = ''failed'',
                           ae_timestamp = None, ae_result = None, ae_error = Some err\<rparr>]"
    using process_of_verifier_fault [of verifier h cfg _ registry now] assms by auto
  have 6: "\<forall>receipt j.
        verifier h (jc_amount cfg) (or_default (jc_asset cfg) ''USDC'') = Inr receipt
        \<and> valid receipt \<and> receipt_jobId receipt = Some j \<and> j \<noteq> []
        \<and> registry j = Inr (Some Run_Timeout) \<longrightarrow>
        out = Inl ''Job timeout''
        \<and> evs = [Ev_Verify h, Ev_GetJob j, Ev_SetContext j, Ev_Run j,
                 Ev_Audit \<lparr>ae_jobId = None, ae_txHash = h, ae_status = ''failed'',
                           ae_timestamp = None, ae_result = None,
                           ae_error = Some ''Job timeout''\<rparr>]"
    using process_of_timeout [of verifier h cfg _ _ registry now] assms by auto
  have 7: "\<forall>receipt j result.
        verifier h (jc_amount cfg) (or_default (jc_asset cfg) ''USDC'') = Inr receipt
        \<and> valid receipt \<and> receipt_jobId receipt = Some j \<and> j \<noteq> []
        \<and> registry j = Inr (Some (Run_Resolved result)) \<longrightarrow>
        out = Inr \<lparr>pr_success = True, pr_jobId = Some j, pr_result = Some result,
                   pr_error = None\<rparr>
        \<and> evs = [Ev_Verify h, Ev_GetJob j, Ev_SetContext j, Ev_Run j,
                 Ev_Audit \<lparr>ae_jobId = Some j, ae_txHash = h, ae_status = ''completed'',
                           ae_timestamp = Some now, ae_result = Some result,
                           ae_error = None\<rparr>]"
    using process_of_resolved [of verifier h cfg _ _ registry _ now] assms by auto
  from o 4 5 6 7 show ?thesis by (intro conjI) blast+
qed

theorem processPaymentRequest_audit_witness:
  "processPaymentRequest (verify job_ledger 5) done_registry 9 ''0xabc''
       \<lparr>jc_amount = ''0.5'', jc_asset = None\<rparr>
     = (Inr \<lparr>pr_success = True, pr_jobId = Some ''job-1'', pr_result = Some ''done'',
              pr_error = None\<rparr>,
        [Ev_Verify ''0xabc'', Ev_GetJob ''job-1'', Ev_SetContext ''job-1'', Ev_Run ''job-1'',
         Ev_Audit \<lparr>ae_jobId = Some ''job-1'', ae_txHash = ''0xabc'',
                   ae_status = ''completed'', ae_timestamp = Some 9,
                   ae_result = Some ''done'', ae_error = None\<rparr>])
   \<and> processPaymentRequest (verify job_ledger 5) done_registry 9 ''0xabc''
       \<lparr>jc_amount = ''0.5'', jc_asset = Some ''ETH''\<rparr>
     = (Inr \<lparr>pr_success = False, pr_jobId = None, pr_result = None,
              pr_error = Some ''Asset mismatch''\<rparr>,
        [Ev_Verify ''0xabc''])"
proof -
  let ?ok = "\<lparr>jc_amount = ''0.5'', jc_asset = None\<rparr>"
  let ?eth = "\<lparr>jc_amount = ''0.5'', jc_asset = Some ''ETH''\<rparr>"
  obtain out evs where h:
    "processPaymentRequest (verify job_ledger 5) done_registry 9 ''0xabc'' ?ok = (out, evs)"
    by (cases "processPaymentRequest (verify job_ledger 5) done_registry 9 ''0xabc'' ?ok")
  have v: "verify job_ledger 5 ''0xabc'' (jc_amount ?ok) (or_default (jc_asset ?ok) ''USDC'')
      = Inr \<lparr>valid = True, reason = None, txHash = Some ''0xabc'', expected = None,
             received = None, status = None, expiresAt = None, amount = Some ''0.5'',
             asset = Some ''USDC'', v_from = Some ''0xa'', v_to = Some ''0xb'',
             blockNumber = Some 7, service = Some ''render'',
             v_metadata = Some \<lparr>md_jobId = Some ''job-1''\<rparr>, jobId = None\<rparr>"
    by (simp add: verify_def verify_try_def job_ledger_def or_default_def expired_def)
  have 1: "out = Inr \<lparr>pr_success = True, pr_jobId = Some ''job-1'', pr_result = Some ''done'',
              pr_error = None\<rparr>
      \<and> evs = [Ev_Verify ''0xabc'', Ev_GetJob ''job-1'', Ev_SetContext ''job-1'',
               Ev_Run ''job-1'',
               Ev_Audit \<lparr>ae_jobId = Some ''job-1'', ae_txHash = ''0xabc'',
                         ae_status = ''completed'', ae_timestamp = Some 9,
                         ae_result = Some ''done'', ae_error = None\<rparr>]"
    using processPaymentRequest_audit [OF h] v
    by (simp add: receipt_jobId_def or_str_def truthy_str_def done_registry_def)
  obtain out' evs' where h':
    "processPaymentRequest (verify job_ledger 5) done_registry 9 ''0xabc'' ?eth = (out', evs')"
    by (cases "processPaymentRequest (verify job_ledger 5) done_registry 9 ''0xabc'' ?eth")
  have v': "verify job_ledger 5 ''0xabc'' (jc_amount ?eth) (or_default (jc_asset ?eth) ''USDC'')
      = Inr ((invalid_obj ''Asset mismatch'')
               \<lparr>expected := Some ''ETH'', received := Some ''USDC''\<rparr>)"
    by (simp add: verify_def verify_try_def job_ledger_def or_default_def truthy_str_def)
  have 2: "out' = Inr \<lparr>pr_success = False, pr_jobId = None, pr_result = None,
              pr_error = Some ''Asset mismatch''\<rparr> \<and> evs' = [Ev_Verify ''0xabc'']"
    using processPaymentRequest_audit [OF h'] v'
    by (simp add: invalid_obj_def)
  from 1 2 show ?thesis
    by (simp add: h h')
qed

section \<open>Properties of the number model\<close>

lemma floor_rat_numeral:
  "\<lfloor>(numeral a / numeral b :: rat)\<rfloor> = numeral a div numeral b"
  using floor_divide_of_int_eq [of "numeral a" "numeral b", where ?'a = rat] by simp

lemma pow2_nonpos: "q \<le> 0 \<Longrightarrow> pow2 q = 1 / 2 ^ nat (- q)"
  by (cases "q = 0") (simp_all add: pow2_def)

lemma round_half_even_of_int: "round_half_even (of_int z) = z"
  by (simp add: round_half_even_def)

lemma bitlen_below:
  assumes "0 < k" "k < 2 ^ n"
  shows "bitlen k \<le> int n"
proof -
  have "2 ^ nat (bitlen k - 1) \<le> k"
    using bitlen_bounds [OF assms(1)] by simp
  with assms(2) have "(2::int) ^ nat (bitlen k - 1) < 2 ^ n" by linarith
  then have "nat (bitlen k - 1) < n" by simp
  then show ?thesis by linarith
qed

lemma bitlen_eqI:
  assumes "2 ^ n \<le> x" "x < 2 ^ Suc n"
  shows "bitlen x = int (Suc n)"
  using bitlen_twopow_add_eq [of "x - 2 ^ n" n] assms by simp

text \<open>An integer below \<open>2 ^ 53\<close> in magnitude is a double: rounding leaves it as it is.\<close>

lemma to_double_int:
  assumes "\<bar>n\<bar> < 2 ^ 53"
  shows "to_double (of_int n) = Num (of_int n)"
proof (cases "n = 0")
  case True
  then show ?thesis by (simp add: to_double_def)
next
  case False
  define k where "k = \<bar>n\<bar>"
  have k: "0 < k" "k < 2 ^ 53" using False assms by (simp_all add: k_def)
  define e where "e = bitlen k - 1"
  have e0: "0 \<le> e" using k(1) bitlen_eq_zero_iff [of k] bitlen_nonneg [of k]
    by (simp add: e_def)
  have e52: "e \<le> 52" using bitlen_below [OF k] by (simp add: e_def)
  have a: "\<bar>rat_of_int n\<bar> = of_int k" by (simp add: k_def)
  have b: "binade (of_int k) = e"
    using k(1) by (simp add: binade_def e_def)
  have m: "max e (- 1022) - 52 = e - 52" using e0 by simp
  have p: "pow2 (e - 52) = 1 / 2 ^ nat (52 - e)"
    using pow2_nonpos [of "e - 52"] e52 by simp
  have r: "rat_of_int k / pow2 (e - 52) = of_int (k * 2 ^ nat (52 - e))"
    by (simp add: p)
  have y: "of_int (round_half_even (rat_of_int k / pow2 (e - 52))) * pow2 (e - 52)
             = rat_of_int k"
    by (simp only: r round_half_even_of_int) (simp add: p)
  have lt: "\<not> (2 :: rat) ^ 1024 \<le> rat_of_int k"
  proof -
    have "rat_of_int k < of_int (2 ^ 53)" using k(2) by (simp only: of_int_less_iff)
    also have "\<dots> \<le> 2 ^ 1024" by simp
    finally show ?thesis by simp
  qed
  have nz: "rat_of_int n \<noteq> 0" using False by simp
  have s: "(if rat_of_int n < 0 then - rat_of_int k else rat_of_int k) = rat_of_int n"
    by (simp add: k_def)
  show ?thesis
    unfolding to_double_def Let_def a b m y
    using nz lt s by simp
qed

lemma js_add_ints:
  "\<bar>a + b\<bar> < 2 ^ 53 \<Longrightarrow> js_add (Num (of_int a)) (Num (of_int b)) = Num (of_int (a + b))"
  using to_double_int [of "a + b"] by simp

lemma js_mul_ints:
  "\<bar>a * b\<bar> < 2 ^ 53 \<Longrightarrow> js_mul (Num (of_int a)) (Num (of_int b)) = Num (of_int (a * b))"
  using to_double_int [of "a * b"] by simp

text \<open>
  Adding integers from the left is exact as long as every partial sum stays below
  \<open>2 ^ 53\<close> in magnitude.
\<close>

lemma foldl_js_add_ints:
  assumes "\<forall>k \<le> length ns. \<bar>acc + sum_list (take k ns)\<bar> < 2 ^ 53"
  shows "foldl js_add (Num (of_int acc)) (map (\<lambda>n. Num (of_int n)) ns)
           = Num (of_int (acc + sum_list ns))"
  using assms
proof (induction ns arbitrary: acc)
  case Nil
  then show ?case by simp
next
  case (Cons n ns)
  have 1: "\<bar>acc + n\<bar> < 2 ^ 53"
    using Cons.prems [rule_format, of 1] by simp
  have 2: "\<forall>k \<le> length ns. \<bar>(acc + n) + sum_list (take k ns)\<bar> < 2 ^ 53"
  proof (intro allI impI)
    fix k assume "k \<le> length ns"
    then show "\<bar>(acc + n) + sum_list (take k ns)\<bar> < 2 ^ 53"
      using Cons.prems [rule_format, of "Suc k"] by (simp add: add.assoc)
  qed
  have "foldl js_add (Num (of_int acc)) (map (\<lambda>n. Num (of_int n)) (n # ns))
      = foldl js_add (js_add (Num (of_int acc)) (Num (of_int n)))
          (map (\<lambda>n. Num (of_int n)) ns)"
    by (simp only: list.map foldl_Cons)
  also have "\<dots> = foldl js_add (Num (of_int (acc + n))) (map (\<lambda>n. Num (of_int n)) ns)"
    by (simp only: js_add_ints [OF 1])
  also have "\<dots> = Num (of_int ((acc + n) + sum_list ns))"
    by (rule Cons.IH [OF 2])
  finally show ?case
    by (simp add: add.assoc)
qed

section \<open>Properties of the number rendering\<close>

lemma digit_char_value: "d < 10 \<Longrightarrow> of_char (digit_char d) - 48 = d"
proof -
  assume "d < 10"
  then have "d \<in> {0,1,2,3,4,5,6,7,8,9}" by auto
  then show ?thesis by (auto simp: digit_char_def)
qed

lemma digit_char_decimal: "d < 10 \<Longrightarrow> digit_char d \<in> set ''0123456789''"
proof -
  assume "d < 10"
  then have "d \<in> {0,1,2,3,4,5,6,7,8,9}" by auto
  then show ?thesis by (auto simp: digit_char_def)
qed

lemma digits_value_snoc: "digits_value (s @ [c]) = 10 * digits_value s + (of_char c - 48)"
  by (simp add: digits_value_def)

lemma digits_value_append:
  "digits_value (xs @ ys) = digits_value xs * 10 ^ length ys + digits_value ys"
proof (induction ys rule: rev_induct)
  case Nil
  then show ?case by (simp add: digits_value_def)
next
  case (snoc y ys)
  have "digits_value (xs @ ys @ [y]) = 10 * digits_value (xs @ ys) + (of_char y - 48)"
    using digits_value_snoc [of "xs @ ys" y] by simp
  then show ?case
    using snoc by (simp add: digits_value_snoc algebra_simps)
qed

lemma digits_value_zeros: "digits_value (replicate k CHR ''0'') = 0"
  by (induction k) (simp_all add: digits_value_def)

lemma digits_value_toString: "digits_value (nat_toString 10 n) = n"
proof (induction "10::nat" n rule: nat_toString.induct)
  case (1 n)
  show ?case
  proof (cases "n < 10")
    case True
    then show ?thesis
      by (subst nat_toString.simps) (simp add: digits_value_def digit_char_value)
  next
    case False
    then have "digits_value (nat_toString 10 (n div 10)) = n div 10"
      using 1 by simp
    with False show ?thesis
      by (subst nat_toString.simps) (simp add: digits_value_snoc digit_char_value)
  qed
qed

lemma toString_decimal: "set (nat_toString 10 n) \<subseteq> set ''0123456789''"
proof (induction "10::nat" n rule: nat_toString.induct)
  case (1 n)
  show ?case
  proof (cases "n < 10")
    case True
    then show ?thesis
      using digit_char_decimal [of n] by (subst nat_toString.simps) simp
  next
    case False
    then have "set (nat_toString 10 (n div 10)) \<subseteq> set ''0123456789''"
      using 1 by simp
    with False show ?thesis
      using digit_char_decimal [of "n mod 10"]
      by (subst nat_toString.simps) simp
  qed
qed

lemma toString_nonempty: "nat_toString b n \<noteq> []"
  by (subst nat_toString.simps) simp

text \<open>The digits of \<open>fixed6\<close>: integer part, point, six decimals, rounded to nearest.\<close>

lemma fixed6_shape:
  "\<exists>ip fp. fixed6 a = ip @ ''.'' @ fp
      \<and> ip \<noteq> [] \<and> length fp = 6 \<and> set (ip @ fp) \<subseteq> set ''0123456789''
      \<and> digits_value ip * 10 ^ 6 + digits_value fp = nat \<lfloor>a * 10 ^ 6 + 1 / 2\<rfloor>"
proof -
  define n where "n = nat \<lfloor>a * 10 ^ 6 + 1 / 2\<rfloor>"
  define m where "m = nat_toString 10 n"
  define m' where "m' = (if length m \<le> 6 then replicate (7 - length m) CHR ''0'' @ m else m)"
  define k where "k = length m'"
  have k: "7 \<le> k"
    using toString_nonempty [of 10 n] by (auto simp: k_def m'_def m_def)
  have dv: "digits_value m' = n"
    by (simp add: m'_def digits_value_append digits_value_zeros m_def digits_value_toString)
  have dec: "set m' \<subseteq> set ''0123456789''"
    using toString_decimal [of n] by (auto simp: m'_def m_def)
  let ?ip = "take (k - 6) m'" and ?fp = "drop (k - 6) m'"
  have split: "?ip @ ?fp = m'" by simp
  have lf: "length ?fp = 6" using k by (simp add: k_def)
  have ne: "?ip \<noteq> []" using k by (auto simp: k_def)
  have "digits_value ?ip * 10 ^ 6 + digits_value ?fp = n"
    using digits_value_append [of ?ip ?fp] lf dv by (simp only: split)
  moreover have "set (?ip @ ?fp) \<subseteq> set ''0123456789''"
    using dec by (simp only: split)
  moreover have "fixed6 a = ?ip @ ''.'' @ ?fp"
    unfolding fixed6_def k_def m'_def m_def n_def Let_def by (rule refl)
  ultimately show ?thesis
    using lf ne unfolding n_def by blast
qed

text \<open>What the digits denote is within half a unit of the sixth decimal of the value.\<close>

lemma fixed6_nearest:
  assumes "0 \<le> a" "int (digits_value ip * 10 ^ 6 + digits_value fp) = \<lfloor>a * 10 ^ 6 + 1 / 2\<rfloor>"
  shows "\<bar>rat_of_nat (digits_value ip) + rat_of_nat (digits_value fp) / 10 ^ 6 - a\<bar>
           \<le> 1 / (2 * 10 ^ 6)"
proof -
  define z where "z = \<lfloor>a * 10 ^ 6 + 1 / 2\<rfloor>"
  have "of_int z \<le> a * 10 ^ 6 + 1 / 2" "a * 10 ^ 6 + 1 / 2 < of_int z + 1"
    unfolding z_def by linarith+
  then have b: "\<bar>rat_of_int z - a * 10 ^ 6\<bar> \<le> 1 / 2" by linarith
  have "rat_of_nat (digits_value ip) * 10 ^ 6 + rat_of_nat (digits_value fp) = rat_of_int z"
    using assms(2) unfolding z_def [symmetric]
    by (metis of_int_of_nat_eq of_nat_add of_nat_mult of_nat_numeral of_nat_power)
  then have e: "rat_of_nat (digits_value ip) + rat_of_nat (digits_value fp) / 10 ^ 6 - a
      = (rat_of_int z - a * 10 ^ 6) / 10 ^ 6"
    by (simp add: field_simps)
  have "\<bar>(rat_of_int z - a * 10 ^ 6) / 10 ^ 6\<bar> = \<bar>rat_of_int z - a * 10 ^ 6\<bar> / 10 ^ 6"
    by (simp add: abs_divide)
  also have "\<dots> \<le> (1 / 2) / 10 ^ 6"
    using b by (rule divide_right_mono) simp
  finally show ?thesis
    unfolding e by simp
qed

section \<open>Properties of AgentMesh.splitPayment\<close>

lemma totalShares_foldl:
  "totalShares recipients = foldl js_add (Num 0) (map rcp_share recipients)"
  by (simp add: totalShares_def foldl_map)

lemma totalShares_ints:
  assumes "map rcp_share recipients = map (\<lambda>n. Num (of_int n)) ns"
    and "\<forall>k \<le> length ns. \<bar>sum_list (take k ns)\<bar> < 2 ^ 53"
  shows "totalShares recipients = Num (of_int (sum_list ns))"
  using foldl_js_add_ints [of ns 0] assms by (simp add: totalShares_foldl)

lemma splitPayment_rejected:
  "totalShares recipients \<noteq> Num 100 \<Longrightarrow>
     splitPayment shortest now p recipients = (Inl ''Payment shares must total 100%'', [])"
  by (simp add: splitPayment_def)

lemma splitPayment_accepted:
  "totalShares recipients = Num 100 \<Longrightarrow>
     splitPayment shortest now p recipients =
       (Inr \<lparr>originalAmount = pay_amount p,
             splits = map (\<lambda>r. executePayment (make_split shortest p r)) recipients,
             sr_timestamp = now\<rparr>,
        map (make_split shortest p) recipients)"
  by (simp add: splitPayment_def Let_def comp_def)

lemma splitPayment_Inr:
  assumes "splitPayment shortest now p recipients = (Inr res, issued)"
  shows "totalShares recipients = Num 100
    \<and> issued = map (make_split shortest p) recipients
    \<and> splits res = map executePayment issued"
  using assms
  by (auto simp: splitPayment_def Let_def split: if_splits)

text \<open>The totals of the concrete recipient lists.\<close>

lemma total_by_address: "totalShares recipients_by_address = Num 100"
  using totalShares_ints [of recipients_by_address "[60, 40]"]
  by (simp add: recipients_by_address_def take_Cons')

lemma total_by_to: "totalShares recipients_by_to = Num 100"
  using totalShares_ints [of recipients_by_to "[60, 40]"]
  by (simp add: recipients_by_to_def take_Cons')

lemma total_short: "totalShares recipients_short = Num 90"
  using totalShares_ints [of recipients_short "[60, 30]"]
  by (simp add: recipients_short_def take_Cons')

lemma total_23_77: "totalShares recipients_23_77 = Num 100"
  using totalShares_ints [of recipients_23_77 "[23, 77]"]
  by (simp add: recipients_23_77_def take_Cons')

lemma bitlen_1e16: "bitlen 10000000000000000 = 54"
  using bitlen_eqI [of 53 10000000000000000] by simp

lemma bitlen_1e16_101: "bitlen 10000000000000101 = 54"
  using bitlen_eqI [of 53 10000000000000101] by simp

lemma to_double_1e16: "to_double 10000000000000000 = Num 10000000000000000"
  by (simp add: to_double_def binade_def Let_def bitlen_1e16 pow2_def round_half_even_def
        floor_rat_numeral)

lemma to_double_1e16_101: "to_double 10000000000000101 = Num 10000000000000100"
  by (simp add: to_double_def binade_def Let_def bitlen_1e16_101 pow2_def round_half_even_def
        floor_rat_numeral)

lemma to_double_100: "to_double 100 = Num 100"
  using to_double_int [of 100] by simp

lemma total_cancelling: "totalShares recipients_cancelling = Num 100"
  by (simp add: totalShares_def recipients_cancelling_def to_double_1e16 to_double_1e16_101
        to_double_100)

lemma bitlen_33: "bitlen 33 = 6"
  using bitlen_eqI [of 5 33] by simp

lemma to_double_quarter: "to_double (133 / 4) = Num (133 / 4)"
  by (simp add: to_double_def binade_def Let_def bitlen_33 pow2_def round_half_even_def
        floor_rat_numeral)

lemma total_quarters: "totalShares recipients_quarters = Num 100"
  by (simp add: totalShares_def recipients_quarters_def to_double_quarter to_double_100)

text \<open>
  C3 (as stated).  The claim has every list whose shares do not sum to exactly 100
  rejected.  The shares \<open>1e16\<close>, \<open>101\<close> and \<open>-1e16\<close> sum to 101; added from the left as
  doubles, \<open>1e16 + 101\<close> rounds to \<open>1e16 + 100\<close>, the total that \<open>splitPayment\<close>
  compares with 100 is 100, and the three transfers are issued.
\<close>

theorem splitPayment_rounded_total_counterexample:
  "map rcp_share recipients_cancelling
       = [Num 10000000000000000, Num 101, Num (- 10000000000000000)]
   \<and> (10000000000000000 + 101 + (- 10000000000000000) :: rat) = 101
   \<and> totalShares recipients_cancelling = Num 100
   \<and> fst (splitPayment no_fraction 0 payment_100_USDC recipients_cancelling)
       \<noteq> Inl ''Payment shares must total 100%''
   \<and> length (snd (splitPayment no_fraction 0 payment_100_USDC recipients_cancelling)) = 3"
proof -
  have 1: "map rcp_share recipients_cancelling
       = [Num 10000000000000000, Num 101, Num (- 10000000000000000)]"
    by (simp add: recipients_cancelling_def)
  have 2: "length recipients_cancelling = 3"
    by (simp add: recipients_cancelling_def)
  show ?thesis
    by (simp add: 1 2 total_cancelling splitPayment_accepted [OF total_cancelling])
qed

text \<open>
  C3 (amended).  \<open>splitPayment\<close> adds the shares from the left, starting from 0, in
  double-precision arithmetic.  When that total is not exactly 100 it raises, and no
  transfer has been handed to \<open>executePayment\<close>; when it is exactly 100 it returns,
  and one transfer per recipient has been issued, in order.  For integer shares whose
  partial sums all stay below \<open>2 ^ 53\<close> in magnitude that total is their sum.
\<close>

theorem splitPayment_all_or_nothing:
  "(totalShares recipients \<noteq> Num 100 \<longrightarrow>
      splitPayment shortest now p recipients = (Inl ''Payment shares must total 100%'', [])) \<and>
   (totalShares recipients = Num 100 \<longrightarrow>
      (\<exists>res issued. splitPayment shortest now p recipients = (Inr res, issued)
         \<and> length issued = length recipients
         \<and> map sp_to issued = map rcp_address recipients
         \<and> splits res = map executePayment issued)) \<and>
   totalShares recipients = foldl js_add (Num 0) (map rcp_share recipients) \<and>
   (\<forall>ns. map rcp_share recipients = map (\<lambda>n. Num (of_int n)) ns
         \<and> (\<forall>k \<le> length ns. \<bar>sum_list (take k ns)\<bar> < 2 ^ 53) \<longrightarrow>
      totalShares recipients = Num (of_int (sum_list ns)))"
proof (intro conjI allI impI)
  assume "totalShares recipients \<noteq> Num 100"
  then show "splitPayment shortest now p recipients
               = (Inl ''Payment shares must total 100%'', [])"
    by (rule splitPayment_rejected)
next
  assume "totalShares recipients = Num 100"
  then show "\<exists>res issued. splitPayment shortest now p recipients = (Inr res, issued)
         \<and> length issued = length recipients
         \<and> map sp_to issued = map rcp_address recipients
         \<and> splits res = map executePayment issued"
    by (simp add: splitPayment_accepted make_split_def comp_def)
next
  show "totalShares recipients = foldl js_add (Num 0) (map rcp_share recipients)"
    by (rule totalShares_foldl)
next
  fix ns
  assume "map rcp_share recipients = map (\<lambda>n. Num (of_int n)) ns
         \<and> (\<forall>k \<le> length ns. \<bar>sum_list (take k ns)\<bar> < 2 ^ 53)"
  then show "totalShares recipients = Num (of_int (sum_list ns))"
    using totalShares_ints by blast
qed

theorem splitPayment_all_or_nothing_witness:
  "splitPayment no_fraction 0 payment_100_USDC recipients_short
      = (Inl ''Payment shares must total 100%'', [])
   \<and> (\<exists>res issued.
         splitPayment no_fraction 0 payment_100_USDC recipients_by_address = (Inr res, issued)
         \<and> length issued = 2 \<and> map sp_to issued = [Some ''A'', Some ''B''])
   \<and> (\<exists>res issued.
         splitPayment no_fraction 0 payment_100_USDC recipients_quarters = (Inr res, issued)
         \<and> length issued = 2)
   \<and> totalShares recipients_by_address = Num (of_int (sum_list [60, 40]))"
proof -
  have 1: "splitPayment no_fraction 0 payment_100_USDC recipients_short
      = (Inl ''Payment shares must total 100%'', [])"
    using splitPayment_all_or_nothing [of recipients_short no_fraction 0 payment_100_USDC]
    by (simp add: total_short)
  have 2: "\<exists>res issued.
         splitPayment no_fraction 0 payment_100_USDC recipients_by_address = (Inr res, issued)
         \<and> length issued = 2 \<and> map sp_to issued = [Some ''A'', Some ''B'']"
    using splitPayment_all_or_nothing [of recipients_by_address no_fraction 0 payment_100_USDC]
    by (simp only: total_by_address) (auto simp: recipients_by_address_def)
  have 3: "\<exists>res issued.
         splitPayment no_fraction 0 payment_100_USDC recipients_quarters = (Inr res, issued)
         \<and> length issued = 2"
    using splitPayment_all_or_nothing [of recipients_quarters no_fraction 0 payment_100_USDC]
    by (simp only: total_quarters) (auto simp: recipients_quarters_def)
  have 4: "totalShares recipients_by_address = Num (of_int (sum_list [60, 40]))"
    using splitPayment_all_or_nothing [of recipients_by_address no_fraction 0 payment_100_USDC,
        THEN conjunct2, THEN conjunct2, THEN conjunct2, rule_format, of "[60, 40]"]
    by (simp add: recipients_by_address_def take_Cons')
  from 1 2 3 4 show ?thesis by blast
qed

lemma toFixed6_finite:
  assumes "\<bar>v\<bar> < 10 ^ 21"
  shows "\<exists>ip fp. toFixed6 shortest (Num v) = (if v < 0 then ''-'' else []) @ ip @ ''.'' @ fp
      \<and> ip \<noteq> [] \<and> length fp = 6 \<and> set (ip @ fp) \<subseteq> set ''0123456789''
      \<and> int (digits_value ip * 10 ^ 6 + digits_value fp) = \<lfloor>\<bar>v\<bar> * 10 ^ 6 + 1 / 2\<rfloor>
      \<and> \<bar>rat_of_nat (digits_value ip) + rat_of_nat (digits_value fp) / 10 ^ 6 - \<bar>v\<bar>\<bar>
           \<le> 1 / (2 * 10 ^ 6)"
proof -
  obtain ip fp where s: "fixed6 \<bar>v\<bar> = ip @ ''.'' @ fp"
    and p: "ip \<noteq> []" "length fp = 6" "set (ip @ fp) \<subseteq> set ''0123456789''"
    and n: "digits_value ip * 10 ^ 6 + digits_value fp = nat \<lfloor>\<bar>v\<bar> * 10 ^ 6 + 1 / 2\<rfloor>"
    using fixed6_shape [of "\<bar>v\<bar>"] by blast
  have "0 \<le> \<lfloor>\<bar>v\<bar> * 10 ^ 6 + 1 / 2\<rfloor>" by simp
  with n have z: "int (digits_value ip * 10 ^ 6 + digits_value fp) = \<lfloor>\<bar>v\<bar> * 10 ^ 6 + 1 / 2\<rfloor>"
    by (simp only: int_nat_eq if_True)
  have t: "toFixed6 shortest (Num v) = (if v < 0 then ''-'' else []) @ ip @ ''.'' @ fp"
    using assms by (simp add: toFixed6_def s)
  have "\<bar>rat_of_nat (digits_value ip) + rat_of_nat (digits_value fp) / 10 ^ 6 - \<bar>v\<bar>\<bar>
           \<le> 1 / (2 * 10 ^ 6)"
    by (rule fixed6_nearest [OF _ z]) simp
  with t p z show ?thesis by blast
qed

text \<open>The transfers of the concrete payments.\<close>

lemma toString_60000000: "nat_toString 10 60000000 = ''60000000''"
  by (simp add: nat_toString.simps digit_char_def)

lemma toString_40000000: "nat_toString 10 40000000 = ''40000000''"
  by (simp add: nat_toString.simps digit_char_def)

lemma toString_1150000: "nat_toString 10 1150000 = ''1150000''"
  by (simp add: nat_toString.simps digit_char_def)

lemma toString_60: "nat_toString 10 60 = ''60''"
  by (simp add: nat_toString.simps digit_char_def)

lemma toString_40: "nat_toString 10 40 = ''40''"
  by (simp add: nat_toString.simps digit_char_def)

lemma to_double_60: "to_double 60 = Num 60"
  using to_double_int [of 60] by simp

lemma to_double_40: "to_double 40 = Num 40"
  using to_double_int [of 40] by simp

lemma to_double_6000: "to_double 6000 = Num 6000"
  using to_double_int [of 6000] by simp

lemma to_double_4000: "to_double 4000 = Num 4000"
  using to_double_int [of 4000] by simp

lemma to_double_115: "to_double 115 = Num 115"
  using to_double_int [of 115] by simp

lemma bitlen_1: "bitlen 1 = 1"
  using bitlen_eqI [of 0 1] by simp

lemma to_double_23_20: "to_double (23 / 20) = Num (5179139571476070 / 4503599627370496)"
  by (simp add: to_double_def binade_def Let_def bitlen_1 pow2_def round_half_even_def
        floor_rat_numeral)

lemma fixed6_60: "fixed6 60 = ''60.000000''"
  by (simp add: fixed6_def Let_def floor_rat_numeral toString_60000000)

lemma fixed6_40: "fixed6 40 = ''40.000000''"
  by (simp add: fixed6_def Let_def floor_rat_numeral toString_40000000)

lemma make_split_60:
  "make_split no_fraction payment_100_USDC
       \<lparr>rcp_address = a, rcp_to = t, rcp_share = Num 60\<rparr> =
     \<lparr>sp_to = a, sp_amount = ''60.000000'', sp_asset = ''USDC'',
      sp_memo = ''Payment split: 60%''\<rparr>"
  by (simp add: make_split_def payment_100_USDC_def to_double_6000 to_double_60
        toFixed6_def fixed6_60 number_toString_def toString_60)

lemma make_split_40:
  "make_split no_fraction payment_100_USDC
       \<lparr>rcp_address = a, rcp_to = t, rcp_share = Num 40\<rparr> =
     \<lparr>sp_to = a, sp_amount = ''40.000000'', sp_asset = ''USDC'',
      sp_memo = ''Payment split: 40%''\<rparr>"
  by (simp add: make_split_def payment_100_USDC_def to_double_4000 to_double_40
        toFixed6_def fixed6_40 number_toString_def toString_40)

lemma amount_5_23:
  "toFixed6 no_fraction (js_div100 (js_mul (Num 5) (Num 23))) = ''1.150000''"
  by (simp add: to_double_115 to_double_23_20 toFixed6_def fixed6_def Let_def
        floor_rat_numeral toString_1150000)

text \<open>
  The double nearest to \<open>30000000001 * 67 / 100\<close> lies below it, and its six decimals
  are \<open>.669998\<close>.
\<close>

lemma bitlen_20100000000: "bitlen 20100000000 = 35"
  using bitlen_eqI [of 34 20100000000] by simp

lemma to_double_2010000000067: "to_double 2010000000067 = Num 2010000000067"
  using to_double_int [of 2010000000067] by simp

lemma to_double_large_quotient:
  "to_double (2010000000067 / 100) = Num (5269094400175636 / 262144)"
  by (simp add: to_double_def binade_def Let_def bitlen_20100000000 pow2_def
        round_half_even_def floor_rat_numeral)

lemma toString_large: "nat_toString 10 20100000000669998 = ''20100000000669998''"
  by (simp add: nat_toString.simps digit_char_def)

lemma amount_large:
  "toFixed6 no_fraction (js_div100 (js_mul (Num 30000000001) (Num 67)))
     = ''20100000000.669998''"
  by (simp add: to_double_2010000000067 to_double_large_quotient toFixed6_def fixed6_def
        Let_def floor_rat_numeral toString_large)

lemma split_by_address:
  "splitPayment no_fraction 0 payment_100_USDC recipients_by_address =
     (Inr \<lparr>originalAmount = Num 100,
           splits = [\<lparr>sp_to = Some ''A'', sp_amount = ''60.000000'', sp_asset = ''USDC'',
                      sp_memo = ''Payment split: 60%'', sp_success = True\<rparr>,
                     \<lparr>sp_to = Some ''B'', sp_amount = ''40.000000'', sp_asset = ''USDC'',
                      sp_memo = ''Payment split: 40%'', sp_success = True\<rparr>],
           sr_timestamp = 0\<rparr>,
      [\<lparr>sp_to = Some ''A'', sp_amount = ''60.000000'', sp_asset = ''USDC'',
        sp_memo = ''Payment split: 60%''\<rparr>,
       \<lparr>sp_to = Some ''B'', sp_amount = ''40.000000'', sp_asset = ''USDC'',
        sp_memo = ''Payment split: 40%''\<rparr>])"
proof -
  have "pay_amount payment_100_USDC = Num 100"
    by (simp add: payment_100_USDC_def)
  then show ?thesis
    by (simp add: splitPayment_accepted [OF total_by_address])
       (simp add: recipients_by_address_def make_split_60 make_split_40 executePayment_def)
qed

text \<open>
  C7 (as stated).  The example of the claim writes the recipients as
  \<open>{to: "A", share: 60}\<close> and \<open>{to: "B", share: 40}\<close>.  \<open>splitPayment\<close> reads
  \<open>recipient.address\<close>, which these objects do not have: the two transfers carry the
  amounts \<open>60.000000\<close> and \<open>40.000000\<close> and the asset, and no destination.  And an
  accepted payment need not have an amount of six decimals: with the amount
  \<open>Infinity\<close> the transfers carry the amount \<open>Infinity\<close>.
\<close>

theorem splitPayment_by_to_counterexample:
  "splitPayment no_fraction 0 payment_100_USDC recipients_by_to =
     (Inr \<lparr>originalAmount = Num 100,
           splits = [\<lparr>sp_to = None, sp_amount = ''60.000000'', sp_asset = ''USDC'',
                      sp_memo = ''Payment split: 60%'', sp_success = True\<rparr>,
                     \<lparr>sp_to = None, sp_amount = ''40.000000'', sp_asset = ''USDC'',
                      sp_memo = ''Payment split: 40%'', sp_success = True\<rparr>],
           sr_timestamp = 0\<rparr>,
      [\<lparr>sp_to = None, sp_amount = ''60.000000'', sp_asset = ''USDC'',
        sp_memo = ''Payment split: 60%''\<rparr>,
       \<lparr>sp_to = None, sp_amount = ''40.000000'', sp_asset = ''USDC'',
        sp_memo = ''Payment split: 40%''\<rparr>])
   \<and> map sp_amount (snd (splitPayment no_fraction 0 payment_unbounded recipients_by_address))
       = [''Infinity'', ''Infinity'']"
proof -
  have 1: "splitPayment no_fraction 0 payment_100_USDC recipients_by_to =
     (Inr \<lparr>originalAmount = Num 100,
           splits = [\<lparr>sp_to = None, sp_amount = ''60.000000'', sp_asset = ''USDC'',
                      sp_memo = ''Payment split: 60%'', sp_success = True\<rparr>,
                     \<lparr>sp_to = None, sp_amount = ''40.000000'', sp_asset = ''USDC'',
                      sp_memo = ''Payment split: 40%'', sp_success = True\<rparr>],
           sr_timestamp = 0\<rparr>,
      [\<lparr>sp_to = None, sp_amount = ''60.000000'', sp_asset = ''USDC'',
        sp_memo = ''Payment split: 60%''\<rparr>,
       \<lparr>sp_to = None, sp_amount = ''40.000000'', sp_asset = ''USDC'',
        sp_memo = ''Payment split: 40%''\<rparr>])"
  proof -
    have "pay_amount payment_100_USDC = Num 100"
      by (simp add: payment_100_USDC_def)
    then show ?thesis
      by (simp add: splitPayment_accepted [OF total_by_to])
         (simp add: recipients_by_to_def make_split_60 make_split_40 executePayment_def)
  qed
  have 2: "map sp_amount
             (snd (splitPayment no_fraction 0 payment_unbounded recipients_by_address))
       = [''Infinity'', ''Infinity'']"
    by (simp add: splitPayment_accepted [OF total_by_address])
       (simp add: recipients_by_address_def make_split_def payment_unbounded_def
          signed_infinity_def toFixed6_def)
  from 1 2 show ?thesis by (rule conjI)
qed

text \<open>
  C7 (amended).  For every payment and recipients accepted by \<open>splitPayment\<close>, the
  transfer of each recipient goes to the recipient's \<open>address\<close> property, carries the
  asset of the payment, and its amount is \<open>toFixed(6)\<close> of
  \<open>payment.amount * share / 100\<close> as computed in double-precision arithmetic.  When
  that value is finite and below \<open>10 ^ 21\<close> in magnitude, the amount is rendered with
  exactly six decimals: an optional sign, decimal digits, a point and six decimal
  digits, which denote the multiple of \<open>10 ^ -6\<close> nearest to the value (the larger one
  on a tie).  For an integer amount and share whose product is below \<open>2 ^ 53\<close> in
  magnitude, the value is the double nearest to the exact quotient.  The instance: a
  payment of 100 USDC split 60/40 between the addresses A and B yields 60.000000 to A
  and 40.000000 to B.
\<close>

theorem splitPayment_transfers:
  assumes "splitPayment shortest now p recipients = (Inr res, issued)"
    and "i < length recipients"
  shows "splits res ! i = executePayment (issued ! i)
     \<and> sp_to (splits res ! i) = rcp_address (recipients ! i)
     \<and> sp_asset (splits res ! i) = pay_asset p
     \<and> sp_amount (splits res ! i)
         = toFixed6 shortest (js_div100 (js_mul (pay_amount p) (rcp_share (recipients ! i))))
     \<and> (\<forall>v. js_div100 (js_mul (pay_amount p) (rcp_share (recipients ! i))) = Num v
            \<and> \<bar>v\<bar> < 10 ^ 21 \<longrightarrow>
          (\<exists>ip fp.
             sp_amount (splits res ! i) = (if v < 0 then ''-'' else []) @ ip @ ''.'' @ fp
             \<and> ip \<noteq> [] \<and> length fp = 6 \<and> set (ip @ fp) \<subseteq> set ''0123456789''
             \<and> int (digits_value ip * 10 ^ 6 + digits_value fp) = \<lfloor>\<bar>v\<bar> * 10 ^ 6 + 1 / 2\<rfloor>
             \<and> \<bar>rat_of_nat (digits_value ip) + rat_of_nat (digits_value fp) / 10 ^ 6
                  - \<bar>v\<bar>\<bar> \<le> 1 / (2 * 10 ^ 6)))
     \<and> (\<forall>a s. pay_amount p = Num (of_int a) \<and> rcp_share (recipients ! i) = Num (of_int s)
            \<and> \<bar>a * s\<bar> < 2 ^ 53 \<longrightarrow>
          js_div100 (js_mul (pay_amount p) (rcp_share (recipients ! i)))
            = to_double (of_int (a * s) / 100))"
proof -
  note s = splitPayment_Inr [OF assms(1)]
  have i: "issued ! i = make_split shortest p (recipients ! i)"
    using s assms(2) by simp
  have e: "splits res ! i = executePayment (issued ! i)"
    using s assms(2) by simp
  have a: "sp_amount (splits res ! i)
         = toFixed6 shortest (js_div100 (js_mul (pay_amount p) (rcp_share (recipients ! i))))"
    by (simp add: e i executePayment_def make_split_def)
  have f: "\<forall>v. js_div100 (js_mul (pay_amount p) (rcp_share (recipients ! i))) = Num v
            \<and> \<bar>v\<bar> < 10 ^ 21 \<longrightarrow>
          (\<exists>ip fp.
             sp_amount (splits res ! i) = (if v < 0 then ''-'' else []) @ ip @ ''.'' @ fp
             \<and> ip \<noteq> [] \<and> length fp = 6 \<and> set (ip @ fp) \<subseteq> set ''0123456789''
             \<and> int (digits_value ip * 10 ^ 6 + digits_value fp) = \<lfloor>\<bar>v\<bar> * 10 ^ 6 + 1 / 2\<rfloor>
             \<and> \<bar>rat_of_nat (digits_value ip) + rat_of_nat (digits_value fp) / 10 ^ 6
                  - \<bar>v\<bar>\<bar> \<le> 1 / (2 * 10 ^ 6))"
  proof (intro allI impI)
    fix v
    assume v: "js_div100 (js_mul (pay_amount p) (rcp_share (recipients ! i))) = Num v
            \<and> \<bar>v\<bar> < 10 ^ 21"
    then have "\<bar>v\<bar> < 10 ^ 21" by simp
    from toFixed6_finite [OF this, of shortest] v
    show "\<exists>ip fp.
             sp_amount (splits res ! i) = (if v < 0 then ''-'' else []) @ ip @ ''.'' @ fp
             \<and> ip \<noteq> [] \<and> length fp = 6 \<and> set (ip @ fp) \<subseteq> set ''0123456789''
             \<and> int (digits_value ip * 10 ^ 6 + digits_value fp) = \<lfloor>\<bar>v\<bar> * 10 ^ 6 + 1 / 2\<rfloor>
             \<and> \<bar>rat_of_nat (digits_value ip) + rat_of_nat (digits_value fp) / 10 ^ 6
                  - \<bar>v\<bar>\<bar> \<le> 1 / (2 * 10 ^ 6)"
      by (simp only: a)
  qed
  have g: "\<forall>a s. pay_amount p = Num (of_int a) \<and> rcp_share (recipients ! i) = Num (of_int s)
            \<and> \<bar>a * s\<bar> < 2 ^ 53 \<longrightarrow>
          js_div100 (js_mul (pay_amount p) (rcp_share (recipients ! i)))
            = to_double (of_int (a * s) / 100)"
  proof (intro allI impI)
    fix a s
    assume h: "pay_amount p = Num (of_int a) \<and> rcp_share (recipients ! i) = Num (of_int s)
            \<and> \<bar>a * s\<bar> < 2 ^ 53"
    then have "js_mul (pay_amount p) (rcp_share (recipients ! i)) = Num (of_int (a * s))"
      using js_mul_ints [of a s] by simp
    then show "js_div100 (js_mul (pay_amount p) (rcp_share (recipients ! i)))
            = to_double (of_int (a * s) / 100)"
      by (simp only: js_div100.simps)
  qed
  have t: "sp_to (splits res ! i) = rcp_address (recipients ! i)"
    "sp_asset (splits res ! i) = pay_asset p"
    by (simp_all add: e i executePayment_def make_split_def)
  from e t a f g show ?thesis by blast
qed

theorem splitPayment_transfers_witness:
  "splitPayment no_fraction 0 payment_100_USDC recipients_by_address =
     (Inr \<lparr>originalAmount = Num 100,
           splits = [\<lparr>sp_to = Some ''A'', sp_amount = ''60.000000'', sp_asset = ''USDC'',
                      sp_memo = ''Payment split: 60%'', sp_success = True\<rparr>,
                     \<lparr>sp_to = Some ''B'', sp_amount = ''40.000000'', sp_asset = ''USDC'',
                      sp_memo = ''Payment split: 40%'', sp_success = True\<rparr>],
           sr_timestamp = 0\<rparr>,
      [\<lparr>sp_to = Some ''A'', sp_amount = ''60.000000'', sp_asset = ''USDC'',
        sp_memo = ''Payment split: 60%''\<rparr>,
       \<lparr>sp_to = Some ''B'', sp_amount = ''40.000000'', sp_asset = ''USDC'',
        sp_memo = ''Payment split: 40%''\<rparr>])
   \<and> (\<exists>res issued.
         splitPayment no_fraction 0 payment_5_USDC recipients_23_77 = (Inr res, issued)
         \<and> sp_to (splits res ! 0) = Some ''A''
         \<and> sp_asset (splits res ! 0) = ''USDC''
         \<and> sp_amount (splits res ! 0) = ''1.150000'')"
proof -
  obtain res issued where
    h: "splitPayment no_fraction 0 payment_5_USDC recipients_23_77 = (Inr res, issued)"
    using splitPayment_accepted [OF total_23_77] by blast
  have i: "(0::nat) < length recipients_23_77"
    by (simp add: recipients_23_77_def)
  have p: "pay_amount payment_5_USDC = Num 5" "pay_asset payment_5_USDC = ''USDC''"
    "rcp_share (recipients_23_77 ! 0) = Num 23"
    "rcp_address (recipients_23_77 ! 0) = Some ''A''"
    by (simp_all add: recipients_23_77_def payment_5_USDC_def)
  have a: "sp_to (splits res ! 0) = rcp_address (recipients_23_77 ! 0)"
    "sp_asset (splits res ! 0) = pay_asset payment_5_USDC"
    "sp_amount (splits res ! 0)
       = toFixed6 no_fraction
           (js_div100 (js_mul (pay_amount payment_5_USDC) (rcp_share (recipients_23_77 ! 0))))"
    using splitPayment_transfers [OF h i] by blast+
  have "sp_to (splits res ! 0) = Some ''A'' \<and> sp_asset (splits res ! 0) = ''USDC''
      \<and> sp_amount (splits res ! 0) = ''1.150000''"
    using a unfolding p amount_5_23 by (intro conjI)
  with h split_by_address show ?thesis by blast
qed

section \<open>Properties of AgentMesh.routeTask\<close>

lemma selectNode_empty: "selectNode st [] rnd = None"
  by (simp add: selectNode_def)

lemma selectNode_round_robin:
  assumes "networkNodes \<noteq> []" "0 \<le> rnd" "rnd < 1"
  shows "\<exists>i < length networkNodes.
           nat \<lfloor>rnd * of_nat (length networkNodes)\<rfloor> = i \<and>
           selectNode ''round-robin'' networkNodes rnd = Some (networkNodes ! i)"
proof -
  let ?n = "length networkNodes"
  have pos: "0 < ?n" using assms(1) by simp
  have lo: "0 \<le> \<lfloor>rnd * of_nat ?n\<rfloor>"
    using assms(2) by simp
  have "rnd * of_nat ?n < of_nat ?n"
    using assms(3) pos by simp
  then have hi: "\<lfloor>rnd * of_nat ?n\<rfloor> < int ?n"
    by (simp add: floor_less_iff)
  obtain first others where c: "networkNodes = first # others"
    using assms(1) by (cases networkNodes) auto
  have "selectNode ''round-robin'' networkNodes rnd
      = Some (networkNodes ! nat \<lfloor>rnd * of_nat ?n\<rfloor>)"
    using lo hi unfolding selectNode_def c by (simp add: Let_def)
  moreover have "nat \<lfloor>rnd * of_nat ?n\<rfloor> < ?n"
    using lo hi by linarith
  ultimately show ?thesis by blast
qed

lemma selectNode_round_robin_any:
  assumes "i < length networkNodes"
  shows "selectNode ''round-robin'' networkNodes (of_nat i / of_nat (length networkNodes))
           = Some (networkNodes ! i)"
proof -
  let ?n = "length networkNodes"
  have pos: "0 < ?n" using assms by (cases networkNodes) simp_all
  have "(of_nat i / of_nat ?n :: rat) * of_nat ?n = of_nat i"
    using pos by simp
  then have f: "\<lfloor>(of_nat i / of_nat ?n :: rat) * of_nat ?n\<rfloor> = int i"
    by (simp only: floor_of_nat)
  obtain first others where c: "networkNodes = first # others"
    using pos by (cases networkNodes) auto
  show ?thesis
    using assms unfolding selectNode_def by (simp only: f Let_def) (simp add: c)
qed

lemma least_loaded:
  "foldl (\<lambda>prev curr. if n_load curr < n_load prev then curr else prev) first others
       \<in> set (first # others)
   \<and> (\<forall>m \<in> set (first # others).
        n_load (foldl (\<lambda>prev curr. if n_load curr < n_load prev then curr else prev)
                  first others) \<le> n_load m)"
proof (induction others arbitrary: first)
  case Nil
  then show ?case by simp
next
  case (Cons x xs)
  show ?case
  proof (cases "n_load x < n_load first")
    case True
    then show ?thesis
      using Cons [of x] by force
  next
    case False
    then show ?thesis
      using Cons [of first] by force
  qed
qed

lemma selectNode_load_based:
  assumes "networkNodes \<noteq> []"
  shows "\<exists>n \<in> set networkNodes. selectNode ''load-based'' networkNodes rnd = Some n
           \<and> (\<forall>m \<in> set networkNodes. n_load n \<le> n_load m)"
proof -
  obtain first others where c: "networkNodes = first # others"
    using assms by (cases networkNodes) auto
  show ?thesis
    using least_loaded [of first others] unfolding c selectNode_def by simp
qed

lemma selectNode_default:
  assumes "networkNodes \<noteq> []" "st \<noteq> ''round-robin''" "st \<noteq> ''load-based''"
  shows "selectNode st networkNodes rnd = Some (hd networkNodes)"
  using assms by (cases networkNodes) (simp_all add: selectNode_def)

text \<open>
  C6 (as stated).  The claim has \<open>round-robin\<close> always select one of the available
  nodes.  \<open>selectNode\<close> never reads the \<open>available\<close> flag: with a registry of a node
  that is not available and one that is, and \<open>Math.random()\<close> returning 0, the node
  that is not available is selected and the task is routed to it.
\<close>

theorem selectNode_down_counterexample:
  "selectNode ''round-robin'' [node_down, node_idle] 0 = Some node_down
     \<and> \<not> n_available node_down
     \<and> routeTask ''round-robin'' [node_down, node_idle] 0 echo_node \<lparr>t_id = ''t1''\<rparr>
         = Inr \<lparr>rr_nodeId = ''n0'', rr_taskId = ''t1'', rr_result = ''http://n0''\<rparr>"
  by (simp add: selectNode_def routeTask_def node_down_def echo_node_def)

text \<open>
  C6 (amended).  With no registered node, \<open>routeTask\<close> raises
  \<open>No available nodes for task routing\<close>.  Otherwise: under \<open>round-robin\<close> the selected
  node is one of the registered nodes, whatever its \<open>available\<close> flag, at the index
  \<open>floor(Math.random() * length)\<close>, and every registered node is selected for some
  value of \<open>Math.random()\<close>; under \<open>load-based\<close> the selected node is a registered
  node whose load is the lowest; under any other policy it is the first node.
  \<open>routeTask\<close> routes the task to the selected node.
\<close>

theorem selectNode_policy:
  "(networkNodes = [] \<longrightarrow>
      routeTask st networkNodes rnd send t = Inl ''No available nodes for task routing'') \<and>
   (networkNodes \<noteq> [] \<and> 0 \<le> rnd \<and> rnd < 1 \<longrightarrow>
      (\<exists>n \<in> set networkNodes. selectNode ''round-robin'' networkNodes rnd = Some n)) \<and>
   (\<forall>n \<in> set networkNodes.
      \<exists>r. 0 \<le> r \<and> r < 1 \<and> selectNode ''round-robin'' networkNodes r = Some n) \<and>
   (networkNodes \<noteq> [] \<longrightarrow>
      (\<exists>n \<in> set networkNodes. selectNode ''load-based'' networkNodes rnd = Some n
         \<and> (\<forall>m \<in> set networkNodes. n_load n \<le> n_load m))) \<and>
   (networkNodes \<noteq> [] \<and> st \<noteq> ''round-robin'' \<and> st \<noteq> ''load-based'' \<longrightarrow>
      selectNode st networkNodes rnd = Some (hd networkNodes)) \<and>
   (\<forall>n result. selectNode st networkNodes rnd = Some n \<and> send t n = Inr result \<longrightarrow>
      routeTask st networkNodes rnd send t
        = Inr \<lparr>rr_nodeId = n_id n, rr_taskId = t_id t, rr_result = result\<rparr>)"
proof (intro conjI)
  show "networkNodes = [] \<longrightarrow>
      routeTask st networkNodes rnd send t = Inl ''No available nodes for task routing''"
    by (simp add: routeTask_def selectNode_empty)
  show "networkNodes \<noteq> [] \<and> 0 \<le> rnd \<and> rnd < 1 \<longrightarrow>
      (\<exists>n \<in> set networkNodes. selectNode ''round-robin'' networkNodes rnd = Some n)"
    using selectNode_round_robin [of networkNodes rnd] by auto
  show "\<forall>n \<in> set networkNodes.
      \<exists>r. 0 \<le> r \<and> r < 1 \<and> selectNode ''round-robin'' networkNodes r = Some n"
  proof
    fix n assume "n \<in> set networkNodes"
    then obtain i where i: "i < length networkNodes" "networkNodes ! i = n"
      by (auto simp: in_set_conv_nth)
    let ?r = "of_nat i / of_nat (length networkNodes) :: rat"
    have "0 \<le> ?r" by simp
    moreover have "?r < 1" using i(1) by (simp add: divide_less_eq)
    moreover have "selectNode ''round-robin'' networkNodes ?r = Some n"
      using selectNode_round_robin_any [OF i(1)] i(2) by simp
    ultimately show "\<exists>r. 0 \<le> r \<and> r < 1 \<and> selectNode ''round-robin'' networkNodes r = Some n"
      by blast
  qed
  show "networkNodes \<noteq> [] \<longrightarrow>
      (\<exists>n \<in> set networkNodes. selectNode ''load-based'' networkNodes rnd = Some n
         \<and> (\<forall>m \<in> set networkNodes. n_load n \<le> n_load m))"
    using selectNode_load_based [of networkNodes rnd] by blast
  show "networkNodes \<noteq> [] \<and> st \<noteq> ''round-robin'' \<and> st \<noteq> ''load-based'' \<longrightarrow>
      selectNode st networkNodes rnd = Some (hd networkNodes)"
    using selectNode_default [of networkNodes st rnd] by blast
  show "\<forall>n result. selectNode st networkNodes rnd = Some n \<and> send t n = Inr result \<longrightarrow>
      routeTask st networkNodes rnd send t
        = Inr \<lparr>rr_nodeId = n_id n, rr_taskId = t_id t, rr_result = result\<rparr>"
    by (simp add: routeTask_def)
qed

theorem selectNode_policy_witness:
  "routeTask ''load-based'' [] 0 echo_node \<lparr>t_id = ''t1''\<rparr>
      = Inl ''No available nodes for task routing''
   \<and> selectNode ''load-based'' [node_busy, node_idle] 0 = Some node_idle
   \<and> selectNode ''nearest'' [node_busy, node_idle] 0 = Some node_busy
   \<and> (\<exists>n \<in> set [node_busy, node_idle].
         selectNode ''round-robin'' [node_busy, node_idle] (1 / 2) = Some n)"
proof -
  have 1: "routeTask ''load-based'' [] 0 echo_node \<lparr>t_id = ''t1''\<rparr>
      = Inl ''No available nodes for task routing''"
    using selectNode_policy [of "[]" "''load-based''" 0 echo_node "\<lparr>t_id = ''t1''\<rparr>"]
    by simp
  note p = selectNode_policy [of "[node_busy, node_idle]" "''nearest''" "1 / 2" echo_node
              "\<lparr>t_id = ''t1''\<rparr>"]
  have 2: "selectNode ''nearest'' [node_busy, node_idle] 0 = Some node_busy"
    using selectNode_policy [of "[node_busy, node_idle]" "''nearest''" 0 echo_node
              "\<lparr>t_id = ''t1''\<rparr>"]
    by simp
  have 3: "\<exists>n \<in> set [node_busy, node_idle].
         selectNode ''round-robin'' [node_busy, node_idle] (1 / 2) = Some n"
    using p by simp
  have "\<exists>n \<in> set [node_busy, node_idle].
          selectNode ''load-based'' [node_busy, node_idle] 0 = Some n
          \<and> (\<forall>m \<in> set [node_busy, node_idle]. n_load n \<le> n_load m)"
    using selectNode_policy [of "[node_busy, node_idle]" "''nearest''" 0 echo_node
              "\<lparr>t_id = ''t1''\<rparr>"]
    by blast
  then have 4: "selectNode ''load-based'' [node_busy, node_idle] 0 = Some node_idle"
    by (auto simp: node_busy_def node_idle_def)
  from 1 2 3 4 show ?thesis by blast
qed

section \<open>Properties of TaskOrchestrator\<close>

lemma requestRenderService_pay_fails:
  assumes "pay (render_request uuid config) = Inl err"
  shows "requestRenderService pay post uuid c config
           = (Inl err, [Ev_Pay (render_request uuid config)])"
  using assms by (simp add: requestRenderService_def)

lemma requestRenderService_wait_fails:
  assumes "pay (render_request uuid config) = Inr tx" "ptx_wait tx c = Inl err"
  shows "requestRenderService pay post uuid c config
           = (Inl err, [Ev_Pay (render_request uuid config), Ev_WaitConfirm c])"
  using assms by (simp add: requestRenderService_def)

lemma requestRenderService_unconfirmed:
  assumes "pay (render_request uuid config) = Inr tx" "ptx_wait tx c = Inr receipt"
    "cr_status receipt \<noteq> Some ''confirmed''"
  shows "requestRenderService pay post uuid c config
           = (Inl ''Payment confirmation failed'',
              [Ev_Pay (render_request uuid config), Ev_WaitConfirm c])"
  using assms by (simp add: requestRenderService_def)

lemma requestRenderService_notified:
  assumes "requestRenderService pay post uuid c config = (out, evs)"
    "\<exists>e \<in> set evs. is_notify e"
  shows "\<exists>tx receipt payload.
           pay (render_request uuid config) = Inr tx \<and> ptx_wait tx c = Inr receipt
           \<and> cr_status receipt = Some ''confirmed''
           \<and> evs = [Ev_Pay (render_request uuid config), Ev_WaitConfirm c, Ev_Notify payload]"
  using assms
  by (auto simp: requestRenderService_def Let_def
           split: sum.splits option.splits if_splits)

text \<open>
  C8.  The render agent is notified only after the payment's confirmation wait has
  returned a receipt whose status is \<open>confirmed\<close>, and the notification is then the
  step after the wait.  When the wait throws (a confirmation timeout included), when
  it returns a receipt with any other status, and when the payment itself fails, the
  operation ends in an error and no notification is made.
\<close>

theorem requestRenderService_no_notify_without_pay:
  assumes "requestRenderService pay post uuid c config = (out, evs)"
  shows
    "((\<exists>e \<in> set evs. is_notify e) \<longrightarrow>
        (\<exists>tx receipt payload.
           pay (render_request uuid config) = Inr tx \<and> ptx_wait tx c = Inr receipt
           \<and> cr_status receipt = Some ''confirmed''
           \<and> evs = [Ev_Pay (render_request uuid config), Ev_WaitConfirm c,
                    Ev_Notify payload])) \<and>
     (\<forall>tx err. pay (render_request uuid config) = Inr tx \<and> ptx_wait tx c = Inl err \<longrightarrow>
        out = Inl err \<and> \<not> (\<exists>e \<in> set evs. is_notify e)) \<and>
     (\<forall>tx receipt. pay (render_request uuid config) = Inr tx \<and> ptx_wait tx c = Inr receipt
          \<and> cr_status receipt \<noteq> Some ''confirmed'' \<longrightarrow>
        out = Inl ''Payment confirmation failed'' \<and> \<not> (\<exists>e \<in> set evs. is_notify e)) \<and>
     (\<forall>err. pay (render_request uuid config) = Inl err \<longrightarrow>
        out = Inl err \<and> \<not> (\<exists>e \<in> set evs. is_notify e))"
proof (intro conjI allI impI)
  assume "\<exists>e \<in> set evs. is_notify e"
  then show "\<exists>tx receipt payload.
           pay (render_request uuid config) = Inr tx \<and> ptx_wait tx c = Inr receipt
           \<and> cr_status receipt = Some ''confirmed''
           \<and> evs = [Ev_Pay (render_request uuid config), Ev_WaitConfirm c,
                    Ev_Notify payload]"
    using requestRenderService_notified [OF assms] by blast
next
  fix tx err
  assume a: "pay (render_request uuid config) = Inr tx \<and> ptx_wait tx c = Inl err"
  then have "requestRenderService pay post uuid c config
           = (Inl err, [Ev_Pay (render_request uuid config), Ev_WaitConfirm c])"
    using requestRenderService_wait_fails by blast
  with assms show "out = Inl err" "\<not> (\<exists>e \<in> set evs. is_notify e)"
    by auto
next
  fix tx receipt
  assume a: "pay (render_request uuid config) = Inr tx \<and> ptx_wait tx c = Inr receipt
          \<and> cr_status receipt \<noteq> Some ''confirmed''"
  then have "requestRenderService pay post uuid c config
           = (Inl ''Payment confirmation failed'',
              [Ev_Pay (render_request uuid config), Ev_WaitConfirm c])"
    using requestRenderService_unconfirmed by blast
  with assms show "out = Inl ''Payment confirmation failed''"
    "\<not> (\<exists>e \<in> set evs. is_notify e)"
    by auto
next
  fix err
  assume "pay (render_request uuid config) = Inl err"
  then have "requestRenderService pay post uuid c config
           = (Inl err, [Ev_Pay (render_request uuid config)])"
    using requestRenderService_pay_fails by blast
  with assms show "out = Inl err" "\<not> (\<exists>e \<in> set evs. is_notify e)"
    by auto
qed

lemma render_confirmed:
  "requestRenderService wallet_confirmed agent_ok ''job-9'' 2 bar_chart
     = (Inr \<lparr>rs_success = True, rs_txHash = ''0xfeed'', rs_jobId = Some ''job-9''\<rparr>,
        [Ev_Pay (render_request ''job-9'' bar_chart), Ev_WaitConfirm 2,
         Ev_Notify \<lparr>np_txHash = ''0xfeed'', np_jobId = Some ''job-9'', np_data = ''1,2,3'',
                    np_chartType = ''bar'', np_format = ''png''\<rparr>])"
  by (simp add: requestRenderService_def wallet_confirmed_def agent_ok_def
        notifyRenderAgent_def bar_chart_def render_request_def)

theorem requestRenderService_no_notify_without_pay_witness:
  "fst (requestRenderService wallet_timeout agent_ok ''job-9'' 2 bar_chart)
     = Inl ''Transaction confirmation timeout''
   \<and> filter is_notify (snd (requestRenderService wallet_timeout agent_ok ''job-9'' 2 bar_chart))
     = []
   \<and> fst (requestRenderService wallet_pending agent_ok ''job-9'' 2 bar_chart)
     = Inl ''Payment confirmation failed''
   \<and> filter is_notify (snd (requestRenderService wallet_pending agent_ok ''job-9'' 2 bar_chart))
     = []
   \<and> requestRenderService wallet_confirmed agent_ok ''job-9'' 2 bar_chart
     = (Inr \<lparr>rs_success = True, rs_txHash = ''0xfeed'', rs_jobId = Some ''job-9''\<rparr>,
        [Ev_Pay (render_request ''job-9'' bar_chart), Ev_WaitConfirm 2,
         Ev_Notify \<lparr>np_txHash = ''0xfeed'', np_jobId = Some ''job-9'', np_data = ''1,2,3'',
                    np_chartType = ''bar'', np_format = ''png''\<rparr>])"
proof -
  obtain out1 evs1 where h1:
    "requestRenderService wallet_timeout agent_ok ''job-9'' 2 bar_chart = (out1, evs1)"
    by (cases "requestRenderService wallet_timeout agent_ok ''job-9'' 2 bar_chart")
  have 1: "out1 = Inl ''Transaction confirmation timeout'' \<and> filter is_notify evs1 = []"
    using requestRenderService_no_notify_without_pay [OF h1]
    by (simp add: wallet_timeout_def filter_empty_conv)
  obtain out2 evs2 where h2:
    "requestRenderService wallet_pending agent_ok ''job-9'' 2 bar_chart = (out2, evs2)"
    by (cases "requestRenderService wallet_pending agent_ok ''job-9'' 2 bar_chart")
  have 2: "out2 = Inl ''Payment confirmation failed'' \<and> filter is_notify evs2 = []"
    using requestRenderService_no_notify_without_pay [OF h2]
    by (simp add: wallet_pending_def filter_empty_conv)
  from 1 2 show ?thesis
    by (simp add: h1 h2 render_confirmed)
qed

section \<open>Properties of AgentWallet.waitForConfirmation\<close>

lemma wait_loop_returns:
  assumes "wait_loop start maxWait confs rounds = Some (Inr result)"
  shows "\<exists>now receipt. (now, Inr (Some receipt)) \<in> set rounds
           \<and> now - start < maxWait \<and> confs \<le> cr_confirmations receipt
           \<and> result = spread_over_confirmed receipt"
  using assms
proof (induction rounds)
  case Nil
  then show ?case by simp
next
  case (Cons a rounds)
  obtain now answer where a: "a = (now, answer)" by (cases a)
  show ?case
    using Cons unfolding a
    by (auto split: if_splits sum.splits option.splits)
qed

lemma wait_loop_reaches:
  assumes "list_all (keeps_waiting start maxWait confs) pre"
    "now - start < maxWait" "confs \<le> cr_confirmations receipt"
  shows "wait_loop start maxWait confs (pre @ (now, Inr (Some receipt)) # post)
           = Some (Inr (spread_over_confirmed receipt))"
  using assms
proof (induction pre)
  case Nil
  then show ?case by simp
next
  case (Cons a pre)
  obtain t answer where a: "a = (t, answer)" by (cases a)
  show ?case
    using Cons unfolding a
    by (auto simp: keeps_waiting_def split: sum.splits option.splits)
qed

lemma spread_status:
  "cr_status (spread_over_confirmed r)
     = Some (case cr_status r of None \<Rightarrow> ''confirmed'' | Some s \<Rightarrow> s)
   \<and> cr_hash (spread_over_confirmed r) = cr_hash r
   \<and> cr_confirmations (spread_over_confirmed r) = cr_confirmations r
   \<and> cr_blockNumber (spread_over_confirmed r) = cr_blockNumber r"
  by (simp add: spread_over_confirmed_def)

text \<open>
  C10.  When \<open>waitForConfirmation\<close> returns, it returns a receipt the ledger reported
  with at least the requested confirmations, with that receipt's own fields; the status
  is the receipt's own status when it has one, and \<open>confirmed\<close> only when it has none.
  It does return such a result when a poll sees a receipt with enough confirmations
  before the deadline, the earlier polls having seen none.
\<close>

theorem waitForConfirmation_status:
  "(\<forall>result. waitForConfirmation start rounds options = Some (Inr result) \<longrightarrow>
      (\<exists>now receipt. (now, Inr (Some receipt)) \<in> set rounds
         \<and> or_num (wo_confirmations options) 1 \<le> cr_confirmations receipt
         \<and> cr_hash result = cr_hash receipt
         \<and> cr_confirmations result = cr_confirmations receipt
         \<and> cr_blockNumber result = cr_blockNumber receipt
         \<and> (\<forall>s. cr_status receipt = Some s \<longrightarrow> cr_status result = Some s)
         \<and> (cr_status receipt = None \<longrightarrow> cr_status result = Some ''confirmed''))) \<and>
   (\<forall>pre now receipt post.
      rounds = pre @ (now, Inr (Some receipt)) # post
      \<and> list_all (keeps_waiting start (or_num (wo_timeout options) 120000)
                     (or_num (wo_confirmations options) 1)) pre
      \<and> now - start < or_num (wo_timeout options) 120000
      \<and> or_num (wo_confirmations options) 1 \<le> cr_confirmations receipt \<longrightarrow>
      (\<exists>result. waitForConfirmation start rounds options = Some (Inr result)
         \<and> (\<forall>s. cr_status receipt = Some s \<longrightarrow> cr_status result = Some s)
         \<and> (cr_status receipt = None \<longrightarrow> cr_status result = Some ''confirmed'')))"
proof (intro conjI allI impI)
  fix result
  assume "waitForConfirmation start rounds options = Some (Inr result)"
  then have "wait_loop start (or_num (wo_timeout options) 120000)
               (or_num (wo_confirmations options) 1) rounds = Some (Inr result)"
    by (simp add: waitForConfirmation_def)
  from wait_loop_returns [OF this] obtain now receipt where
    r: "(now, Inr (Some receipt)) \<in> set rounds"
       "or_num (wo_confirmations options) 1 \<le> cr_confirmations receipt"
       "result = spread_over_confirmed receipt"
    by blast
  show "\<exists>now receipt. (now, Inr (Some receipt)) \<in> set rounds
         \<and> or_num (wo_confirmations options) 1 \<le> cr_confirmations receipt
         \<and> cr_hash result = cr_hash receipt
         \<and> cr_confirmations result = cr_confirmations receipt
         \<and> cr_blockNumber result = cr_blockNumber receipt
         \<and> (\<forall>s. cr_status receipt = Some s \<longrightarrow> cr_status result = Some s)
         \<and> (cr_status receipt = None \<longrightarrow> cr_status result = Some ''confirmed'')"
    using r spread_status [of receipt] by (intro exI [of _ now] exI [of _ receipt]) simp
next
  fix pre now receipt post
  assume a: "rounds = pre @ (now, Inr (Some receipt)) # post
      \<and> list_all (keeps_waiting start (or_num (wo_timeout options) 120000)
                     (or_num (wo_confirmations options) 1)) pre
      \<and> now - start < or_num (wo_timeout options) 120000
      \<and> or_num (wo_confirmations options) 1 \<le> cr_confirmations receipt"
  then have "waitForConfirmation start rounds options
               = Some (Inr (spread_over_confirmed receipt))"
    using wait_loop_reaches [of start "or_num (wo_timeout options) 120000"
            "or_num (wo_confirmations options) 1" pre now receipt post]
    by (simp add: waitForConfirmation_def)
  then show "\<exists>result. waitForConfirmation start rounds options = Some (Inr result)
         \<and> (\<forall>s. cr_status receipt = Some s \<longrightarrow> cr_status result = Some s)
         \<and> (cr_status receipt = None \<longrightarrow> cr_status result = Some ''confirmed'')"
    using spread_status [of receipt] by simp
qed

theorem waitForConfirmation_status_witness:
  "waitForConfirmation 1000 [(1000, Inr None), (3000, Inr (Some receipt_pending))]
       \<lparr>wo_confirmations = Some 2, wo_timeout = None\<rparr>
     = Some (Inr receipt_pending)
   \<and> waitForConfirmation 1000 [(1000, Inr None), (3000, Inr (Some receipt_bare))]
       \<lparr>wo_confirmations = Some 2, wo_timeout = None\<rparr>
     = Some (Inr (receipt_bare\<lparr>cr_status := Some ''confirmed''\<rparr>))"
proof -
  let ?o = "\<lparr>wo_confirmations = Some 2, wo_timeout = None\<rparr>"
  have k: "list_all (keeps_waiting 1000 (or_num (wo_timeout ?o) 120000)
                     (or_num (wo_confirmations ?o) 1)) [(1000, Inr None)]"
    by (simp add: keeps_waiting_def or_num_def truthy_num_def)
  have 1: "\<exists>result. waitForConfirmation 1000
              [(1000, Inr None), (3000, Inr (Some receipt_pending))] ?o = Some (Inr result)
            \<and> cr_status result = Some ''pending''"
    using waitForConfirmation_status
      [of 1000 "[(1000, Inr None), (3000, Inr (Some receipt_pending))]" ?o,
       THEN conjunct2, rule_format, of "[(1000, Inr None)]" 3000 receipt_pending "[]"] k
    by (simp add: or_num_def truthy_num_def receipt_pending_def)
  have 2: "\<exists>result. waitForConfirmation 1000
              [(1000, Inr None), (3000, Inr (Some receipt_bare))] ?o = Some (Inr result)
            \<and> cr_status result = Some ''confirmed''"
    using waitForConfirmation_status
      [of 1000 "[(1000, Inr None), (3000, Inr (Some receipt_bare))]" ?o,
       THEN conjunct2, rule_format, of "[(1000, Inr None)]" 3000 receipt_bare "[]"] k
    by (simp add: or_num_def truthy_num_def receipt_bare_def)
  from 1 2 show ?thesis
    by (simp add: waitForConfirmation_def or_num_def truthy_num_def
          spread_over_confirmed_def receipt_pending_def receipt_bare_def)
qed

section \<open>Properties of ProofEngine.generateAuditSummary\<close>

lemma generateAuditSummary_nil:
  "generateAuditSummary parseFloat [] =
     \<lparr>totalTransactions = 0, totalAmount = 0, assets = Map.empty, services = Map.empty,
      timeRange_start = Infinity, timeRange_end = 0\<rparr>"
  by (simp add: generateAuditSummary_def)

text \<open>
  C9.  On the empty list of proofs \<open>generateAuditSummary\<close> returns a summary with no
  transactions, a total amount of 0, no asset and no service keys, and the time range
  from \<open>Infinity\<close> to 0, which contains no timestamp.
\<close>

theorem generateAuditSummary_empty:
  "totalTransactions (generateAuditSummary parseFloat []) = 0
   \<and> totalAmount (generateAuditSummary parseFloat []) = 0
   \<and> dom (assets (generateAuditSummary parseFloat [])) = {}
   \<and> dom (services (generateAuditSummary parseFloat [])) = {}
   \<and> timeRange_start (generateAuditSummary parseFloat []) = Infinity
   \<and> timeRange_end (generateAuditSummary parseFloat []) = 0
   \<and> (\<forall>t. \<not> in_timeRange (generateAuditSummary parseFloat []) t)"
  by (simp add: generateAuditSummary_nil)

section \<open>Properties of ProofEngine.generateProof and verifyProof\<close>

lemma digit_char_inj:
  assumes "a < 16" "b < 16" "digit_char a = digit_char b"
  shows "a = b"
proof -
  have d: "distinct ''0123456789abcdef''" by simp
  have "length ''0123456789abcdef'' = 16" by simp
  with assms d show ?thesis
    unfolding digit_char_def by (metis nth_eq_iff_index_eq)
qed

lemma toString16_small: "n < 16 \<Longrightarrow> nat_toString 16 n = [digit_char n]"
  by (subst nat_toString.simps) simp

lemma hex_byte_digits:
  "hex_byte b = [digit_char (unat b div 16), digit_char (unat b mod 16)]"
proof (cases "unat b < 16")
  case True
  then show ?thesis
    by (simp add: hex_byte_def padStart2_def toString16_small digit_char_def)
next
  case False
  have "unat b < 256" using unsigned_less [of b] by simp
  then have "unat b div 16 < 16" by simp
  with False show ?thesis
    by (subst hex_byte_def, subst nat_toString.simps)
       (simp add: toString16_small padStart2_def)
qed

lemma hex_byte_inj: "hex_byte a = hex_byte b \<Longrightarrow> a = b"
proof -
  assume h: "hex_byte a = hex_byte b"
  have la: "unat a < 256" using unsigned_less [of a] by simp
  have lb: "unat b < 256" using unsigned_less [of b] by simp
  from h have "digit_char (unat a div 16) = digit_char (unat b div 16)"
    and "digit_char (unat a mod 16) = digit_char (unat b mod 16)"
    by (simp_all add: hex_byte_digits)
  then have "unat a div 16 = unat b div 16" "unat a mod 16 = unat b mod 16"
    using la lb by (auto intro!: digit_char_inj)
  then have "unat a = unat b"
    by (metis div_mult_mod_eq)
  then show ?thesis by (simp add: word_unat_eq_iff)
qed

lemma hex_string_inj: "hex_string xs = hex_string ys \<Longrightarrow> xs = ys"
proof (induction xs arbitrary: ys)
  case Nil
  then show ?case
    by (cases ys) (simp_all add: hex_string_def hex_byte_digits)
next
  case (Cons x xs)
  show ?case
  proof (cases ys)
    case Nil
    with Cons.prems show ?thesis
      by (simp add: hex_string_def hex_byte_digits)
  next
    case (Cons y ys')
    with Cons.prems have "hex_byte x @ hex_string xs = hex_byte y @ hex_string ys'"
      by (simp add: hex_string_def)
    then have "hex_byte x = hex_byte y" "hex_string xs = hex_string ys'"
      by (simp_all add: hex_byte_digits)
    with Cons.IH Cons show ?thesis
      by (simp add: hex_byte_inj)
  qed
qed

lemma hashProof_sha256:
  "hashProof ''sha256'' stringify digest d = Inr (hex_string (digest (stringify d)))"
  by (simp add: hashProof_def)

lemma hashProof_Inr:
  "hashProof algorithm stringify digest d = Inr h \<Longrightarrow> algorithm = ''sha256''"
  by (simp add: hashProof_def split: if_splits)

lemma generateProof_Inr:
  assumes "generateProof algorithm stringify digest proofStorage now tx = Inr p"
  shows "algorithm = ''sha256'' \<and> p_data p = snapshot tx
       \<and> p_hash p = hex_string (digest (stringify (snapshot tx)))
       \<and> p_signature p =
           (case tr_signer tx of None \<Rightarrow> None
            | Some signer \<Rightarrow> Some (''sig_'' @ take 16 (p_hash p)))
       \<and> p_algorithm p = algorithm \<and> p_timestamp p = now"
  using assms
  by (auto simp: generateProof_def hashProof_def signProof_def Let_def
           split: sum.splits option.splits if_splits)

lemma generateProof_returns:
  assumes "algorithm = ''sha256''" "\<forall>store q. proofStorage = Some store \<longrightarrow> store q = None"
  shows "\<exists>p. generateProof algorithm stringify digest proofStorage now tx = Inr p"
  using assms
  by (auto simp: generateProof_def hashProof_def signProof_def Let_def
           split: sum.splits option.splits)

lemma verifyProof_sha256:
  "verifyProof ''sha256'' stringify digest q
     = Inr (hex_string (digest (stringify (p_data q))) = p_hash q)"
  by (auto simp: verifyProof_def hashProof_def verifySignature_def split: option.splits)

lemma verifyProof_generated:
  assumes "generateProof algorithm stringify digest proofStorage now tx = Inr p"
  shows "verifyProof algorithm stringify digest p = Inr True"
  using generateProof_Inr [OF assms] by (simp add: verifyProof_sha256)

lemma verifyProof_mutated:
  assumes "generateProof algorithm stringify digest proofStorage now tx = Inr p"
    and "digest (stringify d') \<noteq> digest (stringify (p_data p))"
  shows "verifyProof algorithm stringify digest (p\<lparr>p_data := d'\<rparr>) = Inr False"
proof -
  note g = generateProof_Inr [OF assms(1)]
  have "hex_string (digest (stringify d')) \<noteq> hex_string (digest (stringify (p_data p)))"
    using assms(2) hex_string_inj by blast
  then show ?thesis
    using g by (simp add: verifyProof_sha256)
qed

lemma verifyProof_mutated_inj:
  assumes "generateProof algorithm stringify digest proofStorage now tx = Inr p"
    and "inj stringify" "inj_on digest (range stringify)" "d' \<noteq> p_data p"
  shows "verifyProof algorithm stringify digest (p\<lparr>p_data := d'\<rparr>) = Inr False"
proof -
  have "stringify d' \<noteq> stringify (p_data p)"
    using assms(2,4) by (auto dest: injD)
  then have "digest (stringify d') \<noteq> digest (stringify (p_data p))"
    using assms(3) by (auto dest: inj_onD)
  then show ?thesis
    by (rule verifyProof_mutated [OF assms(1)])
qed

lemma demo_digest_differs:
  "demo_digest (demo_stringify ((snapshot (demo_tx sg))\<lparr>pd_amount := ''0.6''\<rparr>))
     \<noteq> demo_digest (demo_stringify (snapshot (demo_tx sg)))"
  by (simp add: demo_digest_def demo_stringify_def snapshot_def demo_tx_def)

text \<open>
  C5.  With the algorithm \<open>sha256\<close> (and a proof store, if there is one, that does not
  throw) \<open>generateProof\<close> returns a proof, with or without a signer.  Every proof it
  returns carries the snapshot of the transaction and verifies.  Replacing the snapshot
  of such a proof by a different one makes \<open>verifyProof\<close> return \<open>false\<close>, provided the
  serialization tells the two snapshots apart and the hash is injective on their two
  serializations.  (Lemma \<open>verifyProof_mutated_inj\<close> is the same fact for a serializer
  and a hash that are injective throughout.)
\<close>

theorem proof_round_trip:
  "(algorithm = ''sha256'' \<and> (\<forall>store q. proofStorage = Some store \<longrightarrow> store q = None) \<longrightarrow>
      (\<exists>p. generateProof algorithm stringify digest proofStorage now tx = Inr p)) \<and>
   (\<forall>p. generateProof algorithm stringify digest proofStorage now tx = Inr p \<longrightarrow>
      p_data p = snapshot tx \<and>
      verifyProof algorithm stringify digest p = Inr True \<and>
      (\<forall>d'. d' \<noteq> p_data p
           \<and> (stringify d' = stringify (p_data p) \<longrightarrow> d' = p_data p)
           \<and> (digest (stringify d') = digest (stringify (p_data p)) \<longrightarrow>
                stringify d' = stringify (p_data p)) \<longrightarrow>
         verifyProof algorithm stringify digest (p\<lparr>p_data := d'\<rparr>) = Inr False))"
proof (intro conjI allI impI)
  assume "algorithm = ''sha256'' \<and> (\<forall>store q. proofStorage = Some store \<longrightarrow> store q = None)"
  then show "\<exists>p. generateProof algorithm stringify digest proofStorage now tx = Inr p"
    using generateProof_returns by blast
next
  fix p assume g: "generateProof algorithm stringify digest proofStorage now tx = Inr p"
  show "p_data p = snapshot tx"
    using generateProof_Inr [OF g] by simp
  show "verifyProof algorithm stringify digest p = Inr True"
    by (rule verifyProof_generated [OF g])
  fix d'
  assume "d' \<noteq> p_data p
           \<and> (stringify d' = stringify (p_data p) \<longrightarrow> d' = p_data p)
           \<and> (digest (stringify d') = digest (stringify (p_data p)) \<longrightarrow>
                stringify d' = stringify (p_data p))"
  then have "digest (stringify d') \<noteq> digest (stringify (p_data p))"
    by blast
  then show "verifyProof algorithm stringify digest (p\<lparr>p_data := d'\<rparr>) = Inr False"
    by (rule verifyProof_mutated [OF g])
qed

theorem proof_round_trip_witness:
  "\<exists>p. generateProof ''sha256'' demo_stringify demo_digest None 5 (demo_tx (Some ''key'')) = Inr p
     \<and> p_signature p \<noteq> None
     \<and> verifyProof ''sha256'' demo_stringify demo_digest p = Inr True
     \<and> verifyProof ''sha256'' demo_stringify demo_digest
          (p\<lparr>p_data := (p_data p)\<lparr>pd_amount := ''0.6''\<rparr>\<rparr>) = Inr False"
proof -
  note t = proof_round_trip [of "''sha256''" None demo_stringify demo_digest 5
             "demo_tx (Some ''key'')"]
  from t obtain p where
    g: "generateProof ''sha256'' demo_stringify demo_digest None 5 (demo_tx (Some ''key''))
          = Inr p"
    by auto
  from t g have d: "p_data p = snapshot (demo_tx (Some ''key''))"
    and v: "verifyProof ''sha256'' demo_stringify demo_digest p = Inr True"
    by blast+
  have s: "p_signature p \<noteq> None"
    using generateProof_Inr [OF g] by (simp add: demo_tx_def)
  have ne: "(p_data p)\<lparr>pd_amount := ''0.6''\<rparr> \<noteq> p_data p"
    by (simp add: d snapshot_def demo_tx_def)
  have st: "demo_stringify ((p_data p)\<lparr>pd_amount := ''0.6''\<rparr>) \<noteq> demo_stringify (p_data p)"
    by (simp add: d demo_stringify_def snapshot_def demo_tx_def)
  have dg: "demo_digest (demo_stringify ((p_data p)\<lparr>pd_amount := ''0.6''\<rparr>))
              \<noteq> demo_digest (demo_stringify (p_data p))"
    using demo_digest_differs by (simp add: d)
  have "verifyProof ''sha256'' demo_stringify demo_digest
          (p\<lparr>p_data := (p_data p)\<lparr>pd_amount := ''0.6''\<rparr>\<rparr>) = Inr False"
    using t g ne st dg by blast
  with g s v show ?thesis by blast
qed

end
